theory Spec2Isabelle
  imports Main "HOL-Library.AList"
begin

section \<open>Python values and exceptions\<close>

text \<open>
  The values that travel between the handlers, the Elasticsearch client and the
  files of the monitor are decoded JSON: \<open>None\<close>, booleans, integers, strings, lists
  and dicts. A dict is an association list in insertion order; \<open>map_of\<close> reads it and
  \<open>AList.update\<close> is the assignment \<open>d[k] = v\<close> (in place when the key is there, at
  the end otherwise). Floating point numbers are not modelled.
\<close>

datatype json =
    JNull
  | JBool bool
  | JInt int
  | JStr string
  | JArr "json list"
  | JObj "(string \<times> json) list"

text \<open>
  Exceptions carry the text that \<open>str(e)\<close> gives. \<open>StoreError\<close> stands for whatever
  the Elasticsearch client raises, \<open>OSError\<close> for a failing file operation. All of
  them but \<open>KeyboardInterrupt\<close> are subclasses of \<open>Exception\<close>.
\<close>

datatype exc =
    KeyError string
  | IndexError string
  | TypeError string
  | AttributeError string
  | StoreError string
  | OSError string
  | KeyboardInterrupt

fun is_Exception :: "exc \<Rightarrow> bool" where
  "is_Exception KeyboardInterrupt = False"
| "is_Exception _ = True"

text \<open>A name between single quotes, as the messages of CPython show it.\<close>

definition quoted :: "string \<Rightarrow> string" where
  "quoted s = [CHR 0x27] @ s @ [CHR 0x27]"

fun str_exc :: "exc \<Rightarrow> string" where
  "str_exc (KeyError k) = quoted k"
| "str_exc (IndexError m) = m"
| "str_exc (TypeError m) = m"
| "str_exc (AttributeError m) = m"
| "str_exc (StoreError m) = m"
| "str_exc (OSError m) = m"
| "str_exc KeyboardInterrupt = []"

fun type_name :: "json \<Rightarrow> string" where
  "type_name JNull = ''NoneType''"
| "type_name (JBool _) = ''bool''"
| "type_name (JInt _) = ''int''"
| "type_name (JStr _) = ''str''"
| "type_name (JArr _) = ''list''"
| "type_name (JObj _) = ''dict''"

text \<open>\<open>sub in s\<close> on two strings: \<open>sub\<close> occurs in \<open>s\<close>.\<close>

fun str_contains :: "string \<Rightarrow> string \<Rightarrow> bool" where
  "str_contains sub [] = (sub = [])"
| "str_contains sub (c # cs) = (take (length sub) (c # cs) = sub \<or> str_contains sub cs)"

text \<open>\<open>x[k]\<close> with a string key \<open>k\<close>.\<close>

fun getitem :: "json \<Rightarrow> string \<Rightarrow> exc + json" where
  "getitem (JObj d) k = (case map_of d k of Some v \<Rightarrow> Inr v | None \<Rightarrow> Inl (KeyError k))"
| "getitem (JArr xs) k = Inl (TypeError ''list indices must be integers or slices, not str'')"
| "getitem (JStr s) k = Inl (TypeError ''string indices must be integers'')"
| "getitem x k = Inl (TypeError (quoted (type_name x) @ '' object is not subscriptable''))"

text \<open>\<open>x[0]\<close>. The keys of a decoded JSON dict are strings, so \<open>0\<close> is never one.\<close>

fun getitem0 :: "json \<Rightarrow> exc + json" where
  "getitem0 (JArr []) = Inl (IndexError ''list index out of range'')"
| "getitem0 (JArr (x # xs)) = Inr x"
| "getitem0 (JStr []) = Inl (IndexError ''string index out of range'')"
| "getitem0 (JStr (c # cs)) = Inr (JStr [c])"
| "getitem0 (JObj d) = Inl (KeyError ''0'')"
| "getitem0 x = Inl (TypeError (quoted (type_name x) @ '' object is not subscriptable''))"

text \<open>\<open>x > 0\<close>. A bool is an int in Python: \<open>True > 0\<close> holds.\<close>

fun gt0 :: "json \<Rightarrow> exc + bool" where
  "gt0 (JInt n) = Inr (n > 0)"
| "gt0 (JBool b) = Inr b"
| "gt0 x = Inl (TypeError (quoted ''>'' @ '' not supported between instances of '' @ quoted (type_name x)
                           @ '' and '' @ quoted ''int''))"

text \<open>\<open>x.get(k, default)\<close>: only a dict has the method.\<close>

fun py_get :: "json \<Rightarrow> string \<Rightarrow> json \<Rightarrow> exc + json" where
  "py_get (JObj d) k dflt = Inr (case map_of d k of Some v \<Rightarrow> v | None \<Rightarrow> dflt)"
| "py_get x k dflt = Inl (AttributeError (quoted (type_name x) @ '' object has no attribute '' @ quoted ''get''))"

text \<open>\<open>x[k] = v\<close> with a string key \<open>k\<close>, returning the updated value.\<close>

fun setitem :: "json \<Rightarrow> string \<Rightarrow> json \<Rightarrow> exc + json" where
  "setitem (JObj d) k v = Inr (JObj (AList.update k v d))"
| "setitem (JArr xs) k v = Inl (TypeError ''list indices must be integers or slices, not str'')"
| "setitem x k v = Inl (TypeError (quoted (type_name x) @ '' object does not support item assignment''))"

text \<open>\<open>k in x\<close> with a string \<open>k\<close>: a key of a dict, an element of a list, a substring
  of a string; anything else is not iterable.\<close>

fun py_in :: "string \<Rightarrow> json \<Rightarrow> exc + bool" where
  "py_in k (JObj d) = Inr (k \<in> set (map fst d))"
| "py_in k (JArr xs) = Inr (JStr k \<in> set xs)"
| "py_in k (JStr s) = Inr (str_contains k s)"
| "py_in k x = Inl (TypeError (''argument of type '' @ quoted (type_name x) @ '' is not iterable''))"

section \<open>Time stamps\<close>

text \<open>
  \<open>datetime.utcnow()\<close> gives a naive datetime; \<open>isoformat()\<close> prints it as
  \<open>YYYY-MM-DDTHH:MM:SS\<close>, followed by \<open>.ffffff\<close> when the microsecond is not zero.
\<close>

record datetime =
  year :: nat
  month :: nat
  day :: nat
  hour :: nat
  minute :: nat
  second :: nat
  microsecond :: nat

definition digit_char :: "nat \<Rightarrow> char" where
  "digit_char d = ''0123456789'' ! (d mod 10)"

fun dec :: "nat \<Rightarrow> string" where
  "dec n = (if n < 10 then [digit_char n] else dec (n div 10) @ [digit_char (n mod 10)])"

declare dec.simps [simp del]

text \<open>\<open>'%0wd' % n\<close>: padded with zeros to the width, never cut.\<close>

definition zpad :: "nat \<Rightarrow> nat \<Rightarrow> string" where
  "zpad w n = replicate (w - length (dec n)) (CHR ''0'') @ dec n"

definition isoformat :: "datetime \<Rightarrow> string" where
  "isoformat t =
     zpad 4 (year t) @ ''-'' @ zpad 2 (month t) @ ''-'' @ zpad 2 (day t) @ ''T'' @
     zpad 2 (hour t) @ '':'' @ zpad 2 (minute t) @ '':'' @ zpad 2 (second t) @
     (if microsecond t \<noteq> 0 then ''.'' @ zpad 6 (microsecond t) else [])"

text \<open>\<open>strftime('%Y%m%dT%H%M%S')\<close>.\<close>

definition strftime :: "datetime \<Rightarrow> string" where
  "strftime t =
     zpad 4 (year t) @ zpad 2 (month t) @ zpad 2 (day t) @ ''T'' @
     zpad 2 (hour t) @ zpad 2 (minute t) @ zpad 2 (second t)"

text \<open>The fields of a value of Python's \<open>datetime\<close> type are in these ranges.\<close>

definition valid_datetime :: "datetime \<Rightarrow> bool" where
  "valid_datetime t =
     (1 \<le> year t \<and> year t \<le> 9999 \<and> 1 \<le> month t \<and> month t \<le> 12 \<and>
      1 \<le> day t \<and> day t \<le> 31 \<and> hour t < 24 \<and> minute t < 60 \<and> second t < 60 \<and>
      microsecond t < 1000000)"

section \<open>The process and its collaborators\<close>

text \<open>
  A collaborator of the program (the Elasticsearch client, the file system) either
  returns or raises, with the message of the exception. What it does is not in the
  source, so each model function takes it from an environment. The Elasticsearch
  client raises subclasses of \<open>Exception\<close> only (\<open>StoreError\<close>), a file operation
  raises \<open>OSError\<close>, and \<open>time.sleep\<close> either returns or is interrupted from the
  keyboard.
\<close>

datatype 'a outcome = Returns 'a | Raises string

datatype level = INFO | WARNING | ERROR

datatype store_call =
    Ping
  | Search string
  | Index string json

text \<open>
  The state a run threads through: the global \<open>es_client\<close> (the URL the client was made
  for, or \<open>None\<close>), the calls made to the store, the log records, the number of clock
  reads so far, the files opened for writing and the contents written.
\<close>

record world =
  es_client :: "string option"
  store_calls :: "store_call list"
  log :: "(level \<times> string) list"
  ticks :: nat
  opened :: "string list"
  files :: "(string \<times> json) list"

record env =
  ES_HOST :: string
  new_client :: "string \<Rightarrow> unit outcome"
  ping :: "bool outcome"
  search :: "string \<Rightarrow> json outcome"
  index :: "string \<Rightarrow> json \<Rightarrow> json outcome"
  clock :: "nat \<Rightarrow> datetime"
  py_str :: "json \<Rightarrow> string"
  nodename :: string
  makedirs :: "string \<Rightarrow> unit outcome"
  open_w :: "string \<Rightarrow> unit outcome"
  interrupted :: "nat \<Rightarrow> bool"

text \<open>
  \<open>ES_HOST\<close> is the environment variable; \<open>new_client\<close> is the constructor
  \<open>Elasticsearch([url])\<close>; \<open>ping\<close>, \<open>search\<close> (by index) and \<open>index\<close> (by index and
  body) are the three methods of the client; \<open>clock\<close> gives the reading of
  \<open>datetime.utcnow()\<close> by the number of readings before it; \<open>py_str\<close> is what an
  f-string prints for a value; \<open>nodename\<close> is \<open>os.uname().nodename\<close>; \<open>makedirs\<close> and
  \<open>open_w\<close> (opening a path for writing) are the file system; \<open>interrupted\<close> says in
  which cycles \<open>time.sleep\<close> is interrupted from the keyboard.
\<close>

text \<open>
  A Python computation: from a state to a value or a raised exception, and the
  state after it.
\<close>

type_synonym 'a py = "world \<Rightarrow> (exc + 'a) \<times> world"

definition ret :: "'a \<Rightarrow> 'a py" where
  "ret x = (\<lambda>w. (Inr x, w))"

definition raise :: "exc \<Rightarrow> 'a py" where
  "raise ex = (\<lambda>w. (Inl ex, w))"

definition bnd :: "'a py \<Rightarrow> ('a \<Rightarrow> 'b py) \<Rightarrow> 'b py" where
  "bnd m f = (\<lambda>w. case m w of (Inl ex, w') \<Rightarrow> (Inl ex, w') | (Inr x, w') \<Rightarrow> f x w')"

definition seq :: "'a py \<Rightarrow> 'b py \<Rightarrow> 'b py" where
  "seq m n = bnd m (\<lambda>_. n)"

text \<open>\<open>try: m  except Exception as e: h e\<close>.\<close>

definition try_except :: "'a py \<Rightarrow> (exc \<Rightarrow> 'a py) \<Rightarrow> 'a py" where
  "try_except m h =
     (\<lambda>w. case m w of
        (Inl ex, w') \<Rightarrow> if is_Exception ex then h ex w' else (Inl ex, w')
      | (Inr x, w') \<Rightarrow> (Inr x, w'))"

definition lift :: "exc + 'a \<Rightarrow> 'a py" where
  "lift r = (\<lambda>w. (r, w))"

definition of_outcome :: "(string \<Rightarrow> exc) \<Rightarrow> 'a outcome \<Rightarrow> 'a py" where
  "of_outcome cls r = (case r of Returns x \<Rightarrow> ret x | Raises msg \<Rightarrow> raise (cls msg))"

definition logger :: "level \<Rightarrow> string \<Rightarrow> unit py" where
  "logger l msg = (\<lambda>w. (Inr (), w\<lparr>log := log w @ [(l, msg)]\<rparr>))"

definition utcnow :: "env \<Rightarrow> datetime py" where
  "utcnow e = (\<lambda>w. (Inr (clock e (ticks w)), w\<lparr>ticks := Suc (ticks w)\<rparr>))"

definition call_store :: "store_call \<Rightarrow> unit py" where
  "call_store c = (\<lambda>w. (Inr (), w\<lparr>store_calls := store_calls w @ [c]\<rparr>))"

text \<open>The methods of the client object the code uses. On \<open>None\<close> there is no such
  attribute.\<close>

definition es_ping :: "env \<Rightarrow> bool py" where
  "es_ping e = seq (call_store Ping) (of_outcome StoreError (ping e))"

definition es_search :: "env \<Rightarrow> string \<Rightarrow> json py" where
  "es_search e index_name =
     seq (call_store (Search index_name)) (of_outcome StoreError (search e index_name))"

definition es_index :: "env \<Rightarrow> string option \<Rightarrow> string \<Rightarrow> json \<Rightarrow> json py" where
  "es_index e es index_name body =
     (case es of
        None \<Rightarrow> raise (AttributeError (quoted ''NoneType'' @ '' object has no attribute '' @ quoted ''index''))
      | Some c \<Rightarrow>
          seq (call_store (Index index_name body))
              (of_outcome StoreError (index e index_name body)))"

section \<open>api/app.py\<close>

definition SUPPORTED_SERVICES :: "string list" where
  "SUPPORTED_SERVICES = [''httpd'', ''rabbitmq'', ''postgresql'']"

definition get_elasticsearch_client :: "env \<Rightarrow> string option py" where
  "get_elasticsearch_client e =
     seq
       (\<lambda>w. if es_client w = None then
               try_except
                 (let es_url = (if \<not> str_contains ''://'' (ES_HOST e)
                                then ''http://'' @ ES_HOST e else ES_HOST e) in
                  seq (logger INFO (''Connecting to Elasticsearch at: '' @ es_url))
                    (seq (of_outcome StoreError (new_client e es_url))
                      (seq (\<lambda>w. (Inr (), w\<lparr>es_client := Some es_url\<rparr>))
                        (logger INFO ''Elasticsearch client created successfully''))))
                 (\<lambda>ex. seq (logger ERROR (''Failed to create Elasticsearch client: '' @ str_exc ex))
                        (\<lambda>w. (Inr (), w\<lparr>es_client := None\<rparr>)))
                 w
             else (Inr (), w))
       (\<lambda>w. (Inr (es_client w), w))"

definition is_elasticsearch_healthy :: "env \<Rightarrow> bool py" where
  "is_elasticsearch_healthy e =
     try_except
       (bnd (get_elasticsearch_client e) (\<lambda>es.
          if es = None then
            seq (logger ERROR ''Elasticsearch client is None'') (ret False)
          else
            bnd (es_ping e) (\<lambda>ok.
              if ok then seq (logger INFO ''Elasticsearch is healthy'') (ret True)
              else seq (logger WARNING ''Elasticsearch ping returned False'') (ret False))))
       (\<lambda>ex. seq (logger ERROR (''Error checking Elasticsearch: '' @ str_exc ex)) (ret False))"

text \<open>\<open>result["hits"]["total"]["value"]\<close> and \<open>result["hits"]["hits"][0]["_source"]\<close>,
  the two expressions both lookups read the answer of a search with.\<close>

definition hits_total_value :: "json \<Rightarrow> exc + json" where
  "hits_total_value result =
     (case getitem result ''hits'' of Inl ex \<Rightarrow> Inl ex | Inr h \<Rightarrow>
      (case getitem h ''total'' of Inl ex \<Rightarrow> Inl ex | Inr t \<Rightarrow> getitem t ''value''))"

definition first_source :: "json \<Rightarrow> exc + json" where
  "first_source result =
     (case getitem result ''hits'' of Inl ex \<Rightarrow> Inl ex | Inr h \<Rightarrow>
      (case getitem h ''hits'' of Inl ex \<Rightarrow> Inl ex | Inr hs \<Rightarrow>
       (case getitem0 hs of Inl ex \<Rightarrow> Inl ex | Inr h0 \<Rightarrow> getitem h0 ''_source'')))"

definition get_service_status_from_elasticsearch :: "env \<Rightarrow> string \<Rightarrow> json option py" where
  "get_service_status_from_elasticsearch e service_name =
     try_except
       (bnd (get_elasticsearch_client e) (\<lambda>es.
          if es = None then
            seq (logger ERROR ''Cannot query Elasticsearch: client is None'') (ret None)
          else
            let index_name = ''rbcapp1-'' @ service_name in
            bnd (es_search e index_name) (\<lambda>result.
            bnd (lift (hits_total_value result)) (\<lambda>total.
            bnd (lift (gt0 total)) (\<lambda>found.
              if found then
                bnd (lift (first_source result)) (\<lambda>hit.
                bnd (lift (py_get hit ''service_status'' (JStr ''UNKNOWN''))) (\<lambda>st.
                seq (logger INFO (''Retrieved status for '' @ service_name @ '': '' @ py_str e st))
                    (ret (Some hit))))
              else
                seq (logger WARNING (''No status found for service: '' @ service_name))
                    (ret None))))))
       (\<lambda>ex. seq (logger ERROR (''Error querying Elasticsearch for '' @ service_name @ '': ''
                                  @ str_exc ex))
                  (ret None))"

text \<open>The body of \<open>for service in SUPPORTED_SERVICES\<close>, on the dict built so far.\<close>

definition query_service :: "env \<Rightarrow> string \<Rightarrow> (string \<times> json) list \<Rightarrow> (string \<times> json) list py" where
  "query_service e service all_statuses =
     (let index_name = ''rbcapp1-'' @ service in
      try_except
        (bnd (es_search e index_name) (\<lambda>result.
         bnd (lift (hits_total_value result)) (\<lambda>total.
         bnd (lift (gt0 total)) (\<lambda>found.
           if found then
             bnd (lift (first_source result)) (\<lambda>hit.
             bnd (lift (py_get hit ''service_status'' (JStr ''UNKNOWN''))) (\<lambda>st.
             bnd (lift (py_get hit ''@timestamp'' (JStr ''N/A''))) (\<lambda>ts.
             ret (AList.update service (JObj [(''status'', st), (''timestamp'', ts)])
                    all_statuses))))
           else
             ret (AList.update service
                    (JObj [(''status'', JStr ''NO_DATA''), (''timestamp'', JStr ''N/A'')])
                    all_statuses)))))
        (\<lambda>ex. seq (logger WARNING (''Could not query '' @ service @ '': '' @ str_exc ex))
                   (ret (AList.update service
                           (JObj [(''status'', JStr ''ERROR''), (''timestamp'', JStr ''N/A'')])
                           all_statuses))))"

fun query_services :: "env \<Rightarrow> string list \<Rightarrow> (string \<times> json) list \<Rightarrow> (string \<times> json) list py" where
  "query_services e [] all_statuses = ret all_statuses"
| "query_services e (service # rest) all_statuses =
     bnd (query_service e service all_statuses) (query_services e rest)"

definition get_all_services_status :: "env \<Rightarrow> (string \<times> json) list option py" where
  "get_all_services_status e =
     try_except
       (bnd (get_elasticsearch_client e) (\<lambda>es.
          if es = None then
            seq (logger ERROR ''Cannot query Elasticsearch: client is None'') (ret None)
          else
            bnd (query_services e SUPPORTED_SERVICES []) (\<lambda>all_statuses.
            ret (Some all_statuses))))
       (\<lambda>ex. seq (logger ERROR (''Error querying all services: '' @ str_exc ex)) (ret None))"

text \<open>
  A request as the handlers read it: the method, the path, whether the content type is
  JSON, and the body as \<open>request.get_json()\<close> decodes it (a body that does not decode
  is answered by Flask before the handler runs, and is not a value of this type). A
  response is the body given to \<open>jsonify\<close> and the status code. A handler that raises
  returns \<open>Inl\<close>; it is Flask that turns the exception into the answer of
  \<open>server_error\<close>, with the code 500.
\<close>

record request =
  req_method :: string
  path :: string
  is_json :: bool
  get_json :: json

type_synonym response = "json \<times> nat"

definition healthcheck :: "env \<Rightarrow> request \<Rightarrow> response py" where
  "healthcheck e req =
     seq (logger INFO (req_method req @ '' '' @ path req))
     (bnd (is_elasticsearch_healthy e) (\<lambda>healthy.
        if \<not> healthy then
          seq (logger WARNING ''Cannot retrieve statuses: Elasticsearch unavailable'')
              (ret (JObj [(''error'', JStr ''Elasticsearch unavailable''),
                          (''status'', JStr ''UNKNOWN'')], 503))
        else
          bnd (get_all_services_status e) (\<lambda>all_statuses.
            case all_statuses of
              None \<Rightarrow>
                seq (logger ERROR ''Failed to retrieve services status'')
                    (ret (JObj [(''error'', JStr ''Failed to retrieve services status''),
                                (''status'', JStr ''ERROR'')], 500))
            | Some d \<Rightarrow>
                bnd (utcnow e) (\<lambda>now.
                let response = JObj [(''timestamp'', JStr (isoformat now @ ''Z'')),
                                     (''services'', JObj d)] in
                seq (logger INFO (''Returning status for all services: '' @ py_str e (JObj d)))
                    (ret (response, 200))))))"

definition healthcheck_service :: "env \<Rightarrow> request \<Rightarrow> string \<Rightarrow> response py" where
  "healthcheck_service e req service =
     seq (logger INFO (req_method req @ '' '' @ path req @ '' - service: '' @ service))
     (if service \<notin> set SUPPORTED_SERVICES then
        seq (logger WARNING (''Unknown service requested: '' @ service))
            (ret (JObj [(''error'', JStr (''Unknown service: '' @ service)),
                        (''available_services'', JArr (map JStr SUPPORTED_SERVICES))], 400))
      else
        bnd (is_elasticsearch_healthy e) (\<lambda>healthy.
          if \<not> healthy then
            seq (logger WARNING (''Cannot retrieve '' @ service @ '' status: Elasticsearch unavailable''))
                (ret (JObj [(''service'', JStr service),
                            (''status'', JStr ''UNKNOWN''),
                            (''reason'', JStr ''Elasticsearch unavailable'')], 503))
          else
            bnd (get_service_status_from_elasticsearch e service) (\<lambda>service_status.
              case service_status of
                None \<Rightarrow>
                  seq (logger INFO (''No data found for '' @ service))
                      (ret (JObj [(''service'', JStr service),
                                  (''status'', JStr ''NO_DATA''),
                                  (''message'', JStr (''No status data found for '' @ service))], 200))
              | Some hit \<Rightarrow>
                  bnd (lift (py_get hit ''service_status'' (JStr ''UNKNOWN''))) (\<lambda>st.
                  bnd (lift (py_get hit ''host_name'' (JStr ''N/A''))) (\<lambda>hn.
                  bnd (lift (py_get hit ''@timestamp'' (JStr ''N/A''))) (\<lambda>ts.
                  let response = JObj [(''service'', JStr service), (''status'', st),
                                       (''host_name'', hn), (''timestamp'', ts)] in
                  seq (logger INFO (''Returning status for '' @ service @ '': '' @ py_str e response))
                      (ret (response, 200))))))))"

text \<open>\<open>[field for field in required_fields if field not in data]\<close>.\<close>

fun missing_of :: "json \<Rightarrow> string list \<Rightarrow> exc + string list" where
  "missing_of data [] = Inr []"
| "missing_of data (field # rest) =
     (case py_in field data of
        Inl ex \<Rightarrow> Inl ex
      | Inr present \<Rightarrow>
          (case missing_of data rest of
             Inl ex \<Rightarrow> Inl ex
           | Inr ms \<Rightarrow> Inr (if present then ms else field # ms)))"

definition required_fields :: "string list" where
  "required_fields = [''service_name'', ''service_status'', ''host_name'']"

definition add_status :: "env \<Rightarrow> request \<Rightarrow> response py" where
  "add_status e req =
     seq (logger INFO (req_method req @ '' '' @ path req))
     (if \<not> is_json req then
        seq (logger ERROR ''Request is not JSON'')
            (ret (JObj [(''error'', JStr ''Request must be JSON'')], 400))
      else
        let data = get_json req in
        seq (logger INFO (''Received JSON: '' @ py_str e data))
        (bnd (lift (missing_of data required_fields)) (\<lambda>missing_fields.
          if missing_fields \<noteq> [] then
            seq (logger ERROR (''Missing required fields: '' @ py_str e (JArr (map JStr missing_fields))))
                (ret (JObj [(''error'', JStr (''Missing required fields: ''
                                               @ py_str e (JArr (map JStr missing_fields)))),
                            (''required_fields'', JArr (map JStr required_fields))], 400))
          else
            bnd (lift (py_get data ''service_name'' JNull)) (\<lambda>service_name.
              case find (\<lambda>s. JStr s = service_name) SUPPORTED_SERVICES of
                None \<Rightarrow>
                  seq (logger ERROR (''Unknown service: '' @ py_str e service_name))
                      (ret (JObj [(''error'', JStr (''Unknown service: '' @ py_str e service_name)),
                                  (''supported_services'', JArr (map JStr SUPPORTED_SERVICES))], 400))
              | Some name \<Rightarrow>
                  bnd (is_elasticsearch_healthy e) (\<lambda>healthy.
                    if \<not> healthy then
                      seq (logger ERROR ''Cannot insert status: Elasticsearch unavailable'')
                          (ret (JObj [(''error'', JStr ''Elasticsearch unavailable''),
                                      (''status'', JStr ''FAILED'')], 503))
                    else
                      try_except
                        (bnd (get_elasticsearch_client e) (\<lambda>es.
                         bnd (utcnow e) (\<lambda>now.
                         bnd (lift (setitem data ''@timestamp'' (JStr (isoformat now @ ''Z'')))) (\<lambda>data1.
                         bnd (lift (getitem data1 ''@timestamp'')) (\<lambda>ts.
                         bnd (lift (setitem data1 ''timestamp'' ts)) (\<lambda>data2.
                         let index_name = ''rbcapp1-'' @ name in
                         bnd (es_index e es index_name data2) (\<lambda>result.
                         seq (logger INFO (''Successfully inserted status for '' @ name
                                           @ '' into '' @ index_name))
                         (seq (logger INFO (''Elasticsearch response: '' @ py_str e result))
                         (bnd (lift (py_get data2 ''service_status'' JNull)) (\<lambda>st.
                          bnd (lift (py_get data2 ''host_name'' JNull)) (\<lambda>hn.
                          bnd (lift (getitem data2 ''@timestamp'')) (\<lambda>ts2.
                          bnd (lift (py_get result ''_id'' JNull)) (\<lambda>rid.
                          ret (JObj [(''message'', JStr (''Status for '' @ name
                                        @ '' successfully added to Elasticsearch'')),
                                     (''service'', JStr name),
                                     (''status'', st),
                                     (''host_name'', hn),
                                     (''timestamp'', ts2),
                                     (''elasticsearch_id'', rid)], 201))))))))))))))
                        (\<lambda>ex. seq (logger ERROR (''Error inserting status into Elasticsearch: ''
                                                   @ str_exc ex))
                                   (ret (JObj [(''error'', JStr (''Failed to insert status: ''
                                                                  @ str_exc ex)),
                                               (''status'', JStr ''FAILED'')], 500))))))))"

section \<open>monitor/monitor-services.py\<close>

record ServiceMonitor =
  output_dir :: string
  service_status_config :: "(string \<times> string) list"

definition ServiceMonitor_init :: "env \<Rightarrow> ServiceMonitor py" where
  "ServiceMonitor_init e =
     (let dir = ''/var/tmp/rbcapp1-status'' in
      seq (of_outcome OSError (makedirs e dir))
      (seq (logger INFO ''Monitor initialized'')
           (ret \<lparr>output_dir = dir,
                 service_status_config =
                   [(''httpd'', ''UP''), (''rabbitmq'', ''DOWN''), (''postgresql'', ''UP'')]\<rparr>)))"

definition get_service_status :: "ServiceMonitor \<Rightarrow> string \<Rightarrow> string" where
  "get_service_status self service_name =
     (case map_of (service_status_config self) service_name of
        Some status \<Rightarrow> status
      | None \<Rightarrow> ''UNKNOWN'')"

text \<open>\<open>os.path.join(a, b)\<close> on POSIX.\<close>

definition os_path_join :: "string \<Rightarrow> string \<Rightarrow> string" where
  "os_path_join a b =
     (if b \<noteq> [] \<and> hd b = CHR ''/'' then b
      else if a = [] \<or> last a = CHR ''/'' then a @ b
      else a @ ''/'' @ b)"

text \<open>\<open>open(filepath, "w")\<close> and \<open>json.dump(payload, f)\<close>: the file holds the payload.\<close>

definition open_for_write :: "env \<Rightarrow> string \<Rightarrow> unit py" where
  "open_for_write e filepath =
     seq (\<lambda>w. (Inr (), w\<lparr>opened := opened w @ [filepath]\<rparr>))
         (of_outcome OSError (open_w e filepath))"

definition json_dump :: "json \<Rightarrow> string \<Rightarrow> unit py" where
  "json_dump payload filepath = (\<lambda>w. (Inr (), w\<lparr>files := AList.update filepath payload (files w)\<rparr>))"

definition generate_status_json :: "env \<Rightarrow> ServiceMonitor \<Rightarrow> string \<Rightarrow> string \<Rightarrow> unit py" where
  "generate_status_json e self service_name status =
     bnd (utcnow e) (\<lambda>t1.
     let timestamp = isoformat t1 @ ''Z'';
         payload = JObj [(''service_name'', JStr service_name),
                         (''service_status'', JStr status),
                         (''host_name'', JStr (nodename e)),
                         (''timestamp'', JStr timestamp),
                         (''@timestamp'', JStr timestamp)] in
     bnd (utcnow e) (\<lambda>t2.
     let filename = service_name @ ''-'' @ status @ ''-'' @ strftime t2 @ ''.json'';
         filepath = os_path_join (output_dir self) filename in
     seq (open_for_write e filepath)
     (seq (json_dump payload filepath)
          (logger INFO (''Generated: '' @ filename @ '' -> '' @ status)))))"

fun monitor_services :: "env \<Rightarrow> ServiceMonitor \<Rightarrow> string list \<Rightarrow> unit py" where
  "monitor_services e self [] = ret ()"
| "monitor_services e self (service # rest) =
     seq (generate_status_json e self service (get_service_status self service))
         (monitor_services e self rest)"

definition monitor_all_services :: "env \<Rightarrow> ServiceMonitor \<Rightarrow> unit py" where
  "monitor_all_services e self =
     (let services = map fst (service_status_config self) in
      seq (monitor_services e self services)
          (logger INFO ''Monitor cycle complete''))"

definition time_sleep :: "env \<Rightarrow> nat \<Rightarrow> unit py" where
  "time_sleep e cycle = (if interrupted e cycle then raise KeyboardInterrupt else ret ())"

text \<open>
  \<open>while True\<close> has no exit but an exception. The loop is given fuel, one unit for each
  cycle, and \<open>None\<close> says that the fuel ran out while the loop was still running.
\<close>

fun main_loop :: "nat \<Rightarrow> env \<Rightarrow> ServiceMonitor \<Rightarrow> nat \<Rightarrow> world \<Rightarrow> ((exc + unit) \<times> world) option" where
  "main_loop 0 e monitor cycle w = None"
| "main_loop (Suc fuel) e monitor cycle w =
     (let cycle' = cycle + 1 in
      case (seq (logger INFO (''Starting monitoring cycle #'' @ dec cycle'))
           (seq (monitor_all_services e monitor)
           (seq (logger INFO (''Cycle #'' @ dec cycle' @ '' complete. Waiting 60 seconds...''))
                (time_sleep e cycle')))) w of
        (Inl ex, w') \<Rightarrow> Some (Inl ex, w')
      | (Inr u, w') \<Rightarrow> main_loop fuel e monitor cycle' w')"

text \<open>The two \<open>except\<close> clauses of \<open>main\<close>: an interrupt ends it quietly, any other
  exception is logged and raised again.\<close>

definition main_except :: "exc \<Rightarrow> unit py" where
  "main_except ex =
     (if ex = KeyboardInterrupt then logger INFO ''Monitor interrupted. Shutting down...''
      else seq (logger ERROR (''Critical error: '' @ str_exc ex)) (raise ex))"

definition main :: "nat \<Rightarrow> env \<Rightarrow> world \<Rightarrow> ((exc + unit) \<times> world) option" where
  "main fuel e w =
     (case (seq (logger INFO (replicate 60 (CHR ''='')))
           (seq (logger INFO ''rbcapp1 Service Monitor started'')
           (seq (logger INFO (replicate 60 (CHR ''='')))
                (ServiceMonitor_init e)))) w of
        (Inl ex, w1) \<Rightarrow> Some (main_except ex w1)
      | (Inr monitor, w1) \<Rightarrow>
          (case main_loop fuel e monitor 0 w1 of
             None \<Rightarrow> None
           | Some (Inl ex, w2) \<Rightarrow> Some (main_except ex w2)
           | Some (Inr u, w2) \<Rightarrow> Some (Inr u, w2)))"

section \<open>Notions the properties are stated with\<close>

text \<open>
  The shape of an ISO-8601 instant in UTC with a trailing \<open>Z\<close>, as the specification
  asks of the two time stamp fields: \<open>YYYY-MM-DDTHH:MM:SSZ\<close> or
  \<open>YYYY-MM-DDTHH:MM:SS.ffffffZ\<close>.
\<close>

definition is_digit :: "char \<Rightarrow> bool" where
  "is_digit c = (c \<in> set ''0123456789'')"

definition is_iso8601_utc :: "string \<Rightarrow> bool" where
  "is_iso8601_utc s =
     ((length s = 20 \<or> length s = 27) \<and>
      list_all is_digit (take 4 s) \<and> s ! 4 = CHR ''-'' \<and>
      list_all is_digit (take 2 (drop 5 s)) \<and> s ! 7 = CHR ''-'' \<and>
      list_all is_digit (take 2 (drop 8 s)) \<and> s ! 10 = CHR ''T'' \<and>
      list_all is_digit (take 2 (drop 11 s)) \<and> s ! 13 = CHR '':'' \<and>
      list_all is_digit (take 2 (drop 14 s)) \<and> s ! 16 = CHR '':'' \<and>
      list_all is_digit (take 2 (drop 17 s)) \<and>
      (if length s = 20 then s ! 19 = CHR ''Z''
       else s ! 19 = CHR ''.'' \<and> list_all is_digit (take 6 (drop 20 s)) \<and> s ! 26 = CHR ''Z''))"

text \<open>A persisted record carries both time stamp fields, with the same string of that
  shape in both.\<close>

definition carries_both_timestamps :: "json \<Rightarrow> bool" where
  "carries_both_timestamps doc =
     (case (getitem doc ''timestamp'', getitem doc ''@timestamp'') of
        (Inr (JStr a), Inr (JStr b)) \<Rightarrow> a = b \<and> is_iso8601_utc a \<and> a \<noteq> [] \<and> last a = CHR ''Z''
      | _ \<Rightarrow> False)"

text \<open>
  The entry that the loop of \<open>get_all_services_status\<close> stores for a service, read off
  the body of the loop as a function of what the search for that service does. The
  loop is proved to store exactly this entry.
\<close>

definition status_entry :: "json \<Rightarrow> json \<Rightarrow> json" where
  "status_entry st ts = JObj [(''status'', st), (''timestamp'', ts)]"

definition bulk_entry :: "env \<Rightarrow> string \<Rightarrow> json" where
  "bulk_entry e service =
     (case search e (''rbcapp1-'' @ service) of
        Raises msg \<Rightarrow> status_entry (JStr ''ERROR'') (JStr ''N/A'')
      | Returns result \<Rightarrow>
          (case hits_total_value result of
             Inl ex \<Rightarrow> status_entry (JStr ''ERROR'') (JStr ''N/A'')
           | Inr n \<Rightarrow>
               (case gt0 n of
                  Inl ex \<Rightarrow> status_entry (JStr ''ERROR'') (JStr ''N/A'')
                | Inr False \<Rightarrow> status_entry (JStr ''NO_DATA'') (JStr ''N/A'')
                | Inr True \<Rightarrow>
                    (case first_source result of
                       Inl ex \<Rightarrow> status_entry (JStr ''ERROR'') (JStr ''N/A'')
                     | Inr hit \<Rightarrow>
                         (case py_get hit ''service_status'' (JStr ''UNKNOWN'') of
                            Inl ex \<Rightarrow> status_entry (JStr ''ERROR'') (JStr ''N/A'')
                          | Inr st \<Rightarrow>
                              (case py_get hit ''@timestamp'' (JStr ''N/A'') of
                                 Inl ex \<Rightarrow> status_entry (JStr ''ERROR'') (JStr ''N/A'')
                               | Inr ts \<Rightarrow> status_entry st ts))))))"

text \<open>The URL the client is made for, as \<open>get_elasticsearch_client\<close> computes it.\<close>

definition es_url :: "env \<Rightarrow> string" where
  "es_url e = (if \<not> str_contains ''://'' (ES_HOST e) then ''http://'' @ ES_HOST e else ES_HOST e)"

text \<open>What the health probe answers, read off \<open>is_elasticsearch_healthy\<close>: there is a
  client, or one can be made, and the ping returns \<open>True\<close>. The probe is proved to
  return exactly this.\<close>

definition probe :: "env \<Rightarrow> world \<Rightarrow> bool" where
  "probe e w = ((es_client w \<noteq> None \<or> new_client e (es_url e) = Returns ()) \<and> ping e = Returns True)"

text \<open>Whether a store call is a read or a write of the store (a ping is neither).\<close>

fun is_read_or_write :: "store_call \<Rightarrow> bool" where
  "is_read_or_write Ping = False"
| "is_read_or_write (Search i) = True"
| "is_read_or_write (Index i b) = True"

text \<open>The file that \<open>generate_status_json\<close> opens and the payload it dumps there, read
  off its body: the first reading of the clock stamps the payload, the second one names
  the file.\<close>

definition status_file :: "env \<Rightarrow> ServiceMonitor \<Rightarrow> string \<Rightarrow> string \<Rightarrow> world \<Rightarrow> string" where
  "status_file e self service_name status w =
     os_path_join (output_dir self)
       (service_name @ ''-'' @ status @ ''-'' @ strftime (clock e (Suc (ticks w))) @ ''.json'')"

definition status_payload :: "env \<Rightarrow> string \<Rightarrow> string \<Rightarrow> world \<Rightarrow> json" where
  "status_payload e service_name status w =
     JObj [(''service_name'', JStr service_name),
           (''service_status'', JStr status),
           (''host_name'', JStr (nodename e)),
           (''timestamp'', JStr (isoformat (clock e (ticks w)) @ ''Z'')),
           (''@timestamp'', JStr (isoformat (clock e (ticks w)) @ ''Z''))]"

text \<open>The body of \<open>while True\<close> in \<open>main\<close>, for the cycle of a given number: one
  iteration of \<open>main_loop\<close>.\<close>

definition one_cycle :: "env \<Rightarrow> ServiceMonitor \<Rightarrow> nat \<Rightarrow> unit py" where
  "one_cycle e monitor cycle =
     seq (logger INFO (''Starting monitoring cycle #'' @ dec cycle))
    (seq (monitor_all_services e monitor)
    (seq (logger INFO (''Cycle #'' @ dec cycle @ '' complete. Waiting 60 seconds...''))
         (time_sleep e cycle)))"

section \<open>Concrete runs\<close>

text \<open>A fresh process, a clock, and environments in which the store is up, is down,
  fails one search, and in which one file of the monitor cannot be opened.\<close>

definition world0 :: world where
  "world0 = \<lparr>es_client = None, store_calls = [], log = [], ticks = 0, opened = [], files = []\<rparr>"

definition time0 :: datetime where
  "time0 = \<lparr>year = 2025, month = 3, day = 7, hour = 9, minute = 5, second = 0, microsecond = 123\<rparr>"

definition found_httpd :: json where
  "found_httpd =
     JObj [(''hits'', JObj [(''total'', JObj [(''value'', JInt 1)]),
                            (''hits'', JArr [JObj [(''_source'',
                               JObj [(''service_name'', JStr ''httpd''),
                                     (''host_name'', JStr ''h1'')])]])])]"

definition no_hits :: json where
  "no_hits = JObj [(''hits'', JObj [(''total'', JObj [(''value'', JInt 0)]), (''hits'', JArr [])])]"

definition env_up :: env where
  "env_up =
     \<lparr>ES_HOST = ''elasticsearch:9200'',
      new_client = (\<lambda>u. Returns ()),
      ping = Returns True,
      search = (\<lambda>i. if i = ''rbcapp1-httpd'' then Returns found_httpd
                     else if i = ''rbcapp1-rabbitmq'' then Raises ''index is corrupt''
                     else Returns no_hits),
      index = (\<lambda>i b. Returns (JObj [(''_id'', JStr ''abc'')])),
      clock = (\<lambda>n. time0\<lparr>second := n mod 60\<rparr>),
      py_str = (\<lambda>v. ''...''),
      nodename = ''node1'',
      makedirs = (\<lambda>d. Returns ()),
      open_w = (\<lambda>p. if p = ''/var/tmp/rbcapp1-status/rabbitmq-DOWN-20250307T090503.json''
                     then Raises ''Permission denied'' else Returns ()),
      interrupted = (\<lambda>n. False)\<rparr>"

definition env_down :: env where
  "env_down = env_up\<lparr>ping := Raises ''Connection refused''\<rparr>"

definition get_req :: "string \<Rightarrow> request" where
  "get_req p = \<lparr>req_method = ''GET'', path = p, is_json = False, get_json = JNull\<rparr>"

definition post_req :: "json \<Rightarrow> request" where
  "post_req body = \<lparr>req_method = ''POST'', path = ''/add'', is_json = True, get_json = body\<rparr>"

definition payload_httpd :: "(string \<times> json) list" where
  "payload_httpd =
     [(''service_name'', JStr ''httpd''), (''service_status'', JStr ''UP''),
      (''host_name'', JStr ''h1'')]"

definition payload_stamped :: "(string \<times> json) list" where
  "payload_stamped = payload_httpd @ [(''timestamp'', JStr ''1999-12-31T23:59:59Z'')]"

definition payload_ftp :: "(string \<times> json) list" where
  "payload_ftp =
     [(''service_name'', JStr ''ftp''), (''service_status'', JStr ''UP''),
      (''host_name'', JStr ''h1'')]"

definition payload_partial :: "(string \<times> json) list" where
  "payload_partial = [(''service_name'', JStr ''ftp'')]"

definition stamped_httpd :: json where
  "stamped_httpd =
     JObj [(''service_name'', JStr ''httpd''), (''service_status'', JStr ''UP''),
           (''host_name'', JStr ''h1''),
           (''timestamp'', JStr ''2025-03-07T09:05:00.000123Z''),
           (''@timestamp'', JStr ''2025-03-07T09:05:00.000123Z'')]"

definition monitor0 :: ServiceMonitor where
  "monitor0 =
     \<lparr>output_dir = ''/var/tmp/rbcapp1-status'',
      service_status_config =
        [(''httpd'', ''UP''), (''rabbitmq'', ''DOWN''), (''postgresql'', ''UP'')]\<rparr>"

section \<open>Exceptions, the client and the health probe\<close>

lemmas py_defs = ret_def raise_def bnd_def seq_def try_except_def lift_def of_outcome_def
  logger_def utcnow_def call_store_def

lemma getitem_Exception: "getitem x k = Inl ex \<Longrightarrow> is_Exception ex"
  by (cases x) (auto split: option.splits)

lemma getitem0_Exception: "getitem0 x = Inl ex \<Longrightarrow> is_Exception ex"
  by (induction x rule: getitem0.induct) auto

lemma gt0_Exception: "gt0 x = Inl ex \<Longrightarrow> is_Exception ex"
  by (cases x) auto

lemma py_get_Exception: "py_get x k d = Inl ex \<Longrightarrow> is_Exception ex"
  by (cases x) auto

lemma hits_total_value_Exception: "hits_total_value r = Inl ex \<Longrightarrow> is_Exception ex"
  by (auto simp: hits_total_value_def split: sum.splits dest: getitem_Exception)

lemma first_source_Exception: "first_source r = Inl ex \<Longrightarrow> is_Exception ex"
  by (auto simp: first_source_def split: sum.splits dest: getitem_Exception getitem0_Exception)

lemma client_present:
  "es_client w \<noteq> None \<Longrightarrow> get_elasticsearch_client e w = (Inr (es_client w), w)"
  by (cases "es_client w") (simp_all add: get_elasticsearch_client_def py_defs)

lemma client_absent:
  "es_client w = None \<Longrightarrow>
   get_elasticsearch_client e w =
     (case new_client e (es_url e) of
        Returns u \<Rightarrow>
          (Inr (Some (es_url e)),
           w\<lparr>log := log w @ [(INFO, ''Connecting to Elasticsearch at: '' @ es_url e),
                              (INFO, ''Elasticsearch client created successfully'')],
             es_client := Some (es_url e)\<rparr>)
      | Raises msg \<Rightarrow>
          (Inr None,
           w\<lparr>log := log w @ [(INFO, ''Connecting to Elasticsearch at: '' @ es_url e),
                              (ERROR, ''Failed to create Elasticsearch client: '' @ msg)],
             es_client := None\<rparr>))"
  by (simp add: get_elasticsearch_client_def py_defs es_url_def Let_def split: outcome.splits)

lemma healthy_result:
  "\<exists>w'. is_elasticsearch_healthy e w = (Inr (probe e w), w') \<and>
        files w' = files w \<and> opened w' = opened w \<and> ticks w' = ticks w \<and>
        (if es_client w \<noteq> None \<or> new_client e (es_url e) = Returns ()
         then store_calls w' = store_calls w @ [Ping] else store_calls w' = store_calls w) \<and>
        (probe e w \<longrightarrow> es_client w' \<noteq> None)"
proof (cases "es_client w")
  case None
  then show ?thesis
    by (cases "new_client e (es_url e)"; cases "ping e")
       (auto simp: is_elasticsearch_healthy_def client_absent py_defs es_ping_def probe_def
             split: outcome.splits)
next
  case (Some c)
  then show ?thesis
    by (cases "ping e")
       (auto simp: is_elasticsearch_healthy_def client_present py_defs es_ping_def probe_def
             split: outcome.splits)
qed

lemma es_ping_raises: "ping e = Raises msg \<Longrightarrow> fst (es_ping e w) = Inl (StoreError msg)"
  by (simp add: es_ping_def py_defs)

text \<open>
  C8. The health probe is total: whatever the construction of the client and the ping
  do, an exception included (\<open>es_ping_raises\<close> shows the ping's exception reaching the
  body of the probe), \<open>is_elasticsearch_healthy\<close> returns a boolean and raises nothing.
\<close>

theorem health_probe_total: "\<exists>b w'. is_elasticsearch_healthy e w = (Inr b, w')"
  using healthy_result[of e w] by blast

theorem health_probe_total_witness:
  "\<exists>b w'. is_elasticsearch_healthy env_down world0 = (Inr b, w')"
  by (rule health_probe_total)

section \<open>Bulk resolution\<close>

lemma query_service_eq:
  "\<exists>w'. query_service e s acc w = (Inr (AList.update s (bulk_entry e s) acc), w') \<and>
        store_calls w' = store_calls w @ [Search (''rbcapp1-'' @ s)] \<and>
        es_client w' = es_client w \<and> ticks w' = ticks w \<and>
        files w' = files w \<and> opened w' = opened w"
proof (cases "search e (''rbcapp1-'' @ s)")
  case (Raises msg)
  then show ?thesis
    by (simp add: query_service_def bulk_entry_def status_entry_def es_search_def py_defs)
next
  case (Returns result)
  note R = this
  show ?thesis
  proof (cases "hits_total_value result")
    case (Inl ex)
    with R hits_total_value_Exception[OF Inl] show ?thesis
      by (simp add: query_service_def bulk_entry_def status_entry_def es_search_def py_defs)
  next
    case (Inr n)
    note N = this
    show ?thesis
    proof (cases "gt0 n")
      case (Inl ex)
      with R N gt0_Exception[OF Inl] show ?thesis
        by (simp add: query_service_def bulk_entry_def status_entry_def es_search_def py_defs)
    next
      case (Inr found)
      note F = this
      show ?thesis
      proof (cases found)
        case False
        with R N F show ?thesis
          by (simp add: query_service_def bulk_entry_def status_entry_def es_search_def py_defs)
      next
        case True
        note T = this
        show ?thesis
        proof (cases "first_source result")
          case (Inl ex)
          with R N F T first_source_Exception[OF Inl] show ?thesis
            by (simp add: query_service_def bulk_entry_def status_entry_def es_search_def py_defs)
        next
          case (Inr hit)
          with R N F T show ?thesis
            by (cases hit)
               (simp_all add: query_service_def bulk_entry_def status_entry_def es_search_def py_defs)
        qed
      qed
    qed
  qed
qed

lemma query_services_eq:
  "distinct svcs \<Longrightarrow> set svcs \<inter> fst ` set acc = {} \<Longrightarrow>
   \<exists>d w'. query_services e svcs acc w = (Inr d, w') \<and>
          map fst d = map fst acc @ svcs \<and>
          (\<forall>s \<in> set svcs. map_of d s = Some (bulk_entry e s)) \<and>
          (\<forall>k. k \<notin> set svcs \<longrightarrow> map_of d k = map_of acc k) \<and>
          store_calls w' = store_calls w @ map (\<lambda>s. Search (''rbcapp1-'' @ s)) svcs \<and>
          es_client w' = es_client w \<and> ticks w' = ticks w \<and>
          files w' = files w \<and> opened w' = opened w"
proof (induction svcs arbitrary: acc w)
  case Nil
  then show ?case by (simp add: ret_def)
next
  case (Cons s rest)
  obtain w1 where q: "query_service e s acc w = (Inr (AList.update s (bulk_entry e s) acc), w1)"
    and f1: "store_calls w1 = store_calls w @ [Search (''rbcapp1-'' @ s)]"
      "es_client w1 = es_client w" "ticks w1 = ticks w" "files w1 = files w" "opened w1 = opened w"
    using query_service_eq[of e s acc w] by blast
  let ?acc = "AList.update s (bulk_entry e s) acc"
  from Cons.prems have notin: "s \<notin> fst ` set acc" and d: "distinct rest" and sr: "s \<notin> set rest"
    and disj: "set rest \<inter> fst ` set acc = {}" by auto
  have keys: "map fst ?acc = map fst acc @ [s]"
    using notin by (simp add: update_keys)
  have disj': "set rest \<inter> fst ` set ?acc = {}"
    using disj sr by (auto simp: dom_update)
  obtain d' w' where r: "query_services e rest ?acc w1 = (Inr d', w')"
    and k': "map fst d' = map fst ?acc @ rest"
    and v': "\<forall>x \<in> set rest. map_of d' x = Some (bulk_entry e x)"
    and o': "\<forall>k. k \<notin> set rest \<longrightarrow> map_of d' k = map_of ?acc k"
    and f2: "store_calls w' = store_calls w1 @ map (\<lambda>s. Search (''rbcapp1-'' @ s)) rest"
      "es_client w' = es_client w1" "ticks w' = ticks w1" "files w' = files w1" "opened w' = opened w1"
    using Cons.IH[OF d disj', of w1] by blast
  have run: "query_services e (s # rest) acc w = (Inr d', w')"
    using q r by (simp add: bnd_def)
  have s_val: "map_of d' s = Some (bulk_entry e s)"
    using o' sr by (simp add: update_conv')
  have others: "\<forall>k. k \<notin> set (s # rest) \<longrightarrow> map_of d' k = map_of acc k"
    using o' by (simp add: update_conv')
  show ?case
    using run k' keys v' s_val others f1 f2 by auto
qed

lemma registry_distinct: "distinct SUPPORTED_SERVICES"
  by (simp add: SUPPORTED_SERVICES_def)

lemma get_all_eq:
  assumes "es_client w \<noteq> None"
  shows "\<exists>d w'. get_all_services_status e w = (Inr (Some d), w') \<and>
          map fst d = SUPPORTED_SERVICES \<and>
          (\<forall>s \<in> set SUPPORTED_SERVICES. map_of d s = Some (bulk_entry e s)) \<and>
          store_calls w' = store_calls w @ map (\<lambda>s. Search (''rbcapp1-'' @ s)) SUPPORTED_SERVICES \<and>
          ticks w' = ticks w \<and> files w' = files w \<and> opened w' = opened w"
proof -
  obtain d w' where r: "query_services e SUPPORTED_SERVICES [] w = (Inr d, w')"
    and p: "map fst d = map fst [] @ SUPPORTED_SERVICES"
      "\<forall>s \<in> set SUPPORTED_SERVICES. map_of d s = Some (bulk_entry e s)"
      "store_calls w' = store_calls w @ map (\<lambda>s. Search (''rbcapp1-'' @ s)) SUPPORTED_SERVICES"
      "ticks w' = ticks w" "files w' = files w" "opened w' = opened w"
    using query_services_eq[OF registry_distinct, of "[]" e w] by auto
  have "get_all_services_status e w = (Inr (Some d), w')"
    using assms r by (simp add: get_all_services_status_def client_present py_defs)
  with p show ?thesis by auto
qed

lemma probe_log [simp]: "probe e (w\<lparr>log := l\<rparr>) = probe e w"
  by (simp add: probe_def)

lemma healthy_fst: "fst (is_elasticsearch_healthy e w) = Inr (probe e w)"
  using healthy_result[of e w] by auto

lemma healthy_up:
  assumes "probe e w"
  shows "\<exists>w'. is_elasticsearch_healthy e w = (Inr True, w') \<and> es_client w' \<noteq> None \<and>
          store_calls w' = store_calls w @ [Ping] \<and> ticks w' = ticks w \<and>
          files w' = files w \<and> opened w' = opened w"
  using healthy_result[of e w] assms by (auto simp: probe_def split: if_splits)

lemma healthy_down:
  assumes "\<not> probe e w"
  shows "\<exists>w'. is_elasticsearch_healthy e w = (Inr False, w') \<and>
          (store_calls w' = store_calls w \<or> store_calls w' = store_calls w @ [Ping]) \<and>
          ticks w' = ticks w \<and> files w' = files w \<and> opened w' = opened w"
  using healthy_result[of e w] assms by (auto split: if_splits)

lemma healthcheck_healthy:
  assumes "fst (is_elasticsearch_healthy e w) = Inr True"
  shows "\<exists>d w'. healthcheck e req w =
            (Inr (JObj [(''timestamp'', JStr (isoformat (clock e (ticks w)) @ ''Z'')),
                        (''services'', JObj d)], 200), w') \<and>
          map fst d = SUPPORTED_SERVICES \<and>
          (\<forall>s \<in> set SUPPORTED_SERVICES. map_of d s = Some (bulk_entry e s)) \<and>
          store_calls w' =
            store_calls w @ Ping # map (\<lambda>s. Search (''rbcapp1-'' @ s)) SUPPORTED_SERVICES"
proof -
  let ?w0 = "w\<lparr>log := log w @ [(INFO, req_method req @ '' '' @ path req)]\<rparr>"
  from assms have p: "probe e ?w0" by (simp add: healthy_fst)
  obtain w1 where h: "is_elasticsearch_healthy e ?w0 = (Inr True, w1)"
    and c1: "es_client w1 \<noteq> None" and s1: "store_calls w1 = store_calls ?w0 @ [Ping]"
    and t1: "ticks w1 = ticks ?w0"
    using healthy_up[OF p] by blast
  obtain d w2 where g: "get_all_services_status e w1 = (Inr (Some d), w2)"
    and k: "map fst d = SUPPORTED_SERVICES"
    and v: "\<forall>s \<in> set SUPPORTED_SERVICES. map_of d s = Some (bulk_entry e s)"
    and s2: "store_calls w2 = store_calls w1 @ map (\<lambda>s. Search (''rbcapp1-'' @ s)) SUPPORTED_SERVICES"
    and t2: "ticks w2 = ticks w1"
    using get_all_eq[OF c1, of e] by blast
  have run: "healthcheck e req w =
      (Inr (JObj [(''timestamp'', JStr (isoformat (clock e (ticks w)) @ ''Z'')),
                  (''services'', JObj d)], 200),
       w2\<lparr>ticks := Suc (ticks w2),
          log := log w2 @ [(INFO, ''Returning status for all services: '' @ py_str e (JObj d))]\<rparr>)"
    using h g t1 t2 by (simp add: healthcheck_def py_defs)
  show ?thesis
    using run k v s1 s2 by simp
qed

text \<open>
  C2. With a healthy store, \<open>GET /healthcheck\<close> answers 200 with a dict of services
  whose keys are exactly the registered services, each once and in the order of the
  registry, whatever the searches do. The entry of every registered service is the
  one that the search for that service alone determines (\<open>bulk_entry\<close>), whatever the
  searches for the other services do: a service whose search raised is mapped to
  \<open>ERROR\<close>, a service whose search returned no hit to \<open>NO_DATA\<close>, and a service whose
  search returned a document to the status and the time stamp of that document. Every
  service is searched, one after the other, after the ping of the probe.
\<close>

theorem resolveAll_covers_registry:
  assumes "fst (is_elasticsearch_healthy e w) = Inr True"
  shows "\<exists>d w'. healthcheck e req w =
            (Inr (JObj [(''timestamp'', JStr (isoformat (clock e (ticks w)) @ ''Z'')),
                        (''services'', JObj d)], 200), w') \<and>
          map fst d = SUPPORTED_SERVICES \<and>
          (\<forall>s \<in> set SUPPORTED_SERVICES. map_of d s = Some (bulk_entry e s)) \<and>
          (\<forall>s \<in> set SUPPORTED_SERVICES.
             (\<exists>msg. search e (''rbcapp1-'' @ s) = Raises msg) \<longrightarrow>
             map_of d s = Some (JObj [(''status'', JStr ''ERROR''), (''timestamp'', JStr ''N/A'')])) \<and>
          (\<forall>s \<in> set SUPPORTED_SERVICES. \<forall>r n.
             search e (''rbcapp1-'' @ s) = Returns r \<and> hits_total_value r = Inr n \<and>
             gt0 n = Inr False \<longrightarrow>
             map_of d s = Some (JObj [(''status'', JStr ''NO_DATA''), (''timestamp'', JStr ''N/A'')])) \<and>
          (\<forall>s \<in> set SUPPORTED_SERVICES. \<forall>r n doc.
             search e (''rbcapp1-'' @ s) = Returns r \<and> hits_total_value r = Inr n \<and>
             gt0 n = Inr True \<and> first_source r = Inr (JObj doc) \<longrightarrow>
             map_of d s =
               Some (JObj [(''status'', case map_of doc ''service_status'' of
                                          Some v \<Rightarrow> v | None \<Rightarrow> JStr ''UNKNOWN''),
                           (''timestamp'', case map_of doc ''@timestamp'' of
                                          Some v \<Rightarrow> v | None \<Rightarrow> JStr ''N/A'')])) \<and>
          store_calls w' =
            store_calls w @ Ping # map (\<lambda>s. Search (''rbcapp1-'' @ s)) SUPPORTED_SERVICES"
proof -
  obtain d w' where run: "healthcheck e req w =
            (Inr (JObj [(''timestamp'', JStr (isoformat (clock e (ticks w)) @ ''Z'')),
                        (''services'', JObj d)], 200), w')"
    and k: "map fst d = SUPPORTED_SERVICES"
    and v: "\<forall>s \<in> set SUPPORTED_SERVICES. map_of d s = Some (bulk_entry e s)"
    and c: "store_calls w' =
            store_calls w @ Ping # map (\<lambda>s. Search (''rbcapp1-'' @ s)) SUPPORTED_SERVICES"
    using healthcheck_healthy[OF assms, of req] by blast
  have err: "\<forall>s \<in> set SUPPORTED_SERVICES.
      (\<exists>msg. search e (''rbcapp1-'' @ s) = Raises msg) \<longrightarrow>
      map_of d s = Some (JObj [(''status'', JStr ''ERROR''), (''timestamp'', JStr ''N/A'')])"
    using v by (auto simp: bulk_entry_def status_entry_def)
  have nodata: "\<forall>s \<in> set SUPPORTED_SERVICES. \<forall>r n.
             search e (''rbcapp1-'' @ s) = Returns r \<and> hits_total_value r = Inr n \<and>
             gt0 n = Inr False \<longrightarrow>
             map_of d s = Some (JObj [(''status'', JStr ''NO_DATA''), (''timestamp'', JStr ''N/A'')])"
    using v by (auto simp: bulk_entry_def status_entry_def)
  have found: "\<forall>s \<in> set SUPPORTED_SERVICES. \<forall>r n doc.
             search e (''rbcapp1-'' @ s) = Returns r \<and> hits_total_value r = Inr n \<and>
             gt0 n = Inr True \<and> first_source r = Inr (JObj doc) \<longrightarrow>
             map_of d s =
               Some (JObj [(''status'', case map_of doc ''service_status'' of
                                          Some v \<Rightarrow> v | None \<Rightarrow> JStr ''UNKNOWN''),
                           (''timestamp'', case map_of doc ''@timestamp'' of
                                          Some v \<Rightarrow> v | None \<Rightarrow> JStr ''N/A'')])"
    using v by (auto simp: bulk_entry_def status_entry_def)
  from run k v err nodata found c show ?thesis by blast
qed

theorem resolveAll_covers_registry_witness:
  "fst (is_elasticsearch_healthy env_up world0) = Inr True \<and>
   (\<exists>d w'. healthcheck env_up (get_req ''/healthcheck'') world0 =
              (Inr (JObj [(''timestamp'', JStr (isoformat (clock env_up (ticks world0)) @ ''Z'')),
                          (''services'', JObj d)], 200), w') \<and>
            map fst d = SUPPORTED_SERVICES \<and>
            map_of d ''httpd'' =
              Some (JObj [(''status'', JStr ''UNKNOWN''), (''timestamp'', JStr ''N/A'')]) \<and>
            map_of d ''rabbitmq'' =
              Some (JObj [(''status'', JStr ''ERROR''), (''timestamp'', JStr ''N/A'')]) \<and>
            map_of d ''postgresql'' =
              Some (JObj [(''status'', JStr ''NO_DATA''), (''timestamp'', JStr ''N/A'')]) \<and>
            store_calls w' =
              [Ping, Search ''rbcapp1-httpd'', Search ''rbcapp1-rabbitmq'', Search ''rbcapp1-postgresql''])"
proof -
  have h: "fst (is_elasticsearch_healthy env_up world0) = Inr True"
    by (simp add: healthy_fst probe_def env_up_def world0_def)
  have m: "''httpd'' \<in> set SUPPORTED_SERVICES" "''rabbitmq'' \<in> set SUPPORTED_SERVICES"
    "''postgresql'' \<in> set SUPPORTED_SERVICES"
    by (simp_all add: SUPPORTED_SERVICES_def)
  have r: "\<exists>msg. search env_up (''rbcapp1-'' @ ''rabbitmq'') = Raises msg"
    by (simp add: env_up_def)
  have p: "search env_up (''rbcapp1-'' @ ''postgresql'') = Returns no_hits \<and>
           hits_total_value no_hits = Inr (JInt 0) \<and> gt0 (JInt 0) = Inr False"
    by (simp add: env_up_def hits_total_value_def no_hits_def)
  have f: "search env_up (''rbcapp1-'' @ ''httpd'') = Returns found_httpd \<and>
           hits_total_value found_httpd = Inr (JInt 1) \<and> gt0 (JInt 1) = Inr True \<and>
           first_source found_httpd =
             Inr (JObj [(''service_name'', JStr ''httpd''), (''host_name'', JStr ''h1'')])"
    by (simp add: env_up_def hits_total_value_def first_source_def found_httpd_def)
  have c: "store_calls world0 = []" by (simp add: world0_def)
  obtain d w' where run: "healthcheck env_up (get_req ''/healthcheck'') world0 =
            (Inr (JObj [(''timestamp'', JStr (isoformat (clock env_up (ticks world0)) @ ''Z'')),
                        (''services'', JObj d)], 200), w')"
    and k: "map fst d = SUPPORTED_SERVICES"
    and err: "\<forall>s \<in> set SUPPORTED_SERVICES.
             (\<exists>msg. search env_up (''rbcapp1-'' @ s) = Raises msg) \<longrightarrow>
             map_of d s = Some (JObj [(''status'', JStr ''ERROR''), (''timestamp'', JStr ''N/A'')])"
    and nodata: "\<forall>s \<in> set SUPPORTED_SERVICES. \<forall>r n.
             search env_up (''rbcapp1-'' @ s) = Returns r \<and> hits_total_value r = Inr n \<and>
             gt0 n = Inr False \<longrightarrow>
             map_of d s = Some (JObj [(''status'', JStr ''NO_DATA''), (''timestamp'', JStr ''N/A'')])"
    and found: "\<forall>s \<in> set SUPPORTED_SERVICES. \<forall>r n doc.
             search env_up (''rbcapp1-'' @ s) = Returns r \<and> hits_total_value r = Inr n \<and>
             gt0 n = Inr True \<and> first_source r = Inr (JObj doc) \<longrightarrow>
             map_of d s =
               Some (JObj [(''status'', case map_of doc ''service_status'' of
                                          Some v \<Rightarrow> v | None \<Rightarrow> JStr ''UNKNOWN''),
                           (''timestamp'', case map_of doc ''@timestamp'' of
                                          Some v \<Rightarrow> v | None \<Rightarrow> JStr ''N/A'')])"
    and calls: "store_calls w' =
            store_calls world0 @ Ping # map (\<lambda>s. Search (''rbcapp1-'' @ s)) SUPPORTED_SERVICES"
    using resolveAll_covers_registry[OF h, of "get_req ''/healthcheck''"] by blast
  have e1: "map_of d ''rabbitmq'' =
              Some (JObj [(''status'', JStr ''ERROR''), (''timestamp'', JStr ''N/A'')])"
    using err m(2) r by blast
  have e2: "map_of d ''postgresql'' =
              Some (JObj [(''status'', JStr ''NO_DATA''), (''timestamp'', JStr ''N/A'')])"
    using nodata m(3) p by blast
  have "map_of d ''httpd'' =
               Some (JObj [(''status'', case map_of [(''service_name'', JStr ''httpd''), (''host_name'', JStr ''h1'')] ''service_status'' of
                                          Some v \<Rightarrow> v | None \<Rightarrow> JStr ''UNKNOWN''),
                           (''timestamp'', case map_of [(''service_name'', JStr ''httpd''), (''host_name'', JStr ''h1'')] ''@timestamp'' of
                                          Some v \<Rightarrow> v | None \<Rightarrow> JStr ''N/A'')])"
    using found m(1) f by blast
  then have e3: "map_of d ''httpd'' =
              Some (JObj [(''status'', JStr ''UNKNOWN''), (''timestamp'', JStr ''N/A'')])"
    by simp
  have e4: "store_calls w' =
              [Ping, Search ''rbcapp1-httpd'', Search ''rbcapp1-rabbitmq'', Search ''rbcapp1-postgresql'']"
    using calls c by (simp add: SUPPORTED_SERVICES_def)
  from h run k e1 e2 e3 e4 show ?thesis by blast
qed

section \<open>Single resolution\<close>

lemma lookup_raises:
  assumes "es_client w \<noteq> None" and "search e (''rbcapp1-'' @ s) = Raises msg"
  shows "get_service_status_from_elasticsearch e s w =
           (Inr None,
            w\<lparr>store_calls := store_calls w @ [Search (''rbcapp1-'' @ s)],
              log := log w @ [(ERROR, ''Error querying Elasticsearch for '' @ s @ '': '' @ msg)]\<rparr>)"
proof -
  from assms(1) obtain c where c: "es_client w = Some c" by auto
  then have g: "get_elasticsearch_client e w = (Inr (Some c), w)"
    using client_present[of w e] by simp
  show ?thesis
    using assms(2-) g
    by (simp add: get_service_status_from_elasticsearch_def es_search_def py_defs)
qed

lemma lookup_malformed:
  assumes "es_client w \<noteq> None" and "search e (''rbcapp1-'' @ s) = Returns r"
    and "hits_total_value r = Inl ex"
  shows "get_service_status_from_elasticsearch e s w =
           (Inr None,
            w\<lparr>store_calls := store_calls w @ [Search (''rbcapp1-'' @ s)],
              log := log w @ [(ERROR, ''Error querying Elasticsearch for '' @ s @ '': '' @ str_exc ex)]\<rparr>)"
proof -
  from assms(1) obtain c where c: "es_client w = Some c" by auto
  then have g: "get_elasticsearch_client e w = (Inr (Some c), w)"
    using client_present[of w e] by simp
  show ?thesis
    using assms(2-) g hits_total_value_Exception[OF assms(3)]
    by (simp add: get_service_status_from_elasticsearch_def es_search_def py_defs)
qed

lemma lookup_empty:
  assumes "es_client w \<noteq> None" and "search e (''rbcapp1-'' @ s) = Returns r"
    and "hits_total_value r = Inr n" and "gt0 n = Inr False"
  shows "get_service_status_from_elasticsearch e s w =
           (Inr None,
            w\<lparr>store_calls := store_calls w @ [Search (''rbcapp1-'' @ s)],
              log := log w @ [(WARNING, ''No status found for service: '' @ s)]\<rparr>)"
proof -
  from assms(1) obtain c where c: "es_client w = Some c" by auto
  then have g: "get_elasticsearch_client e w = (Inr (Some c), w)"
    using client_present[of w e] by simp
  show ?thesis
    using assms(2-) g
    by (simp add: get_service_status_from_elasticsearch_def es_search_def py_defs)
qed

lemma lookup_found:
  assumes "es_client w \<noteq> None" and "search e (''rbcapp1-'' @ s) = Returns r"
    and "hits_total_value r = Inr n" and "gt0 n = Inr True"
    and "first_source r = Inr (JObj doc)"
  shows "get_service_status_from_elasticsearch e s w =
           (Inr (Some (JObj doc)),
            w\<lparr>store_calls := store_calls w @ [Search (''rbcapp1-'' @ s)],
              log := log w @ [(INFO, ''Retrieved status for '' @ s @ '': '' @
                    py_str e (case map_of doc ''service_status'' of Some v \<Rightarrow> v | None \<Rightarrow> JStr ''UNKNOWN''))]\<rparr>)"
proof -
  from assms(1) obtain c where c: "es_client w = Some c" by auto
  then have g: "get_elasticsearch_client e w = (Inr (Some c), w)"
    using client_present[of w e] by simp
  show ?thesis
    using assms(2-) g
    by (simp add: get_service_status_from_elasticsearch_def es_search_def py_defs)
qed

lemma resolveOne_probe:
  assumes "fst (is_elasticsearch_healthy e w) = Inr True"
  shows "\<exists>w1. is_elasticsearch_healthy e
               (w\<lparr>log := log w @ [(INFO, req_method req @ '' '' @ path req @ '' - service: '' @ s)]\<rparr>)
               = (Inr True, w1) \<and>
             es_client w1 \<noteq> None \<and> store_calls w1 = store_calls w @ [Ping] \<and>
             ticks w1 = ticks w"
proof -
  let ?w0 = "w\<lparr>log := log w @ [(INFO, req_method req @ '' '' @ path req @ '' - service: '' @ s)]\<rparr>"
  from assms have p: "probe e ?w0" by (simp add: healthy_fst)
  from healthy_up[OF p] show ?thesis by auto
qed

lemma resolveOne_malformed_is_no_data:
  assumes "s \<in> set SUPPORTED_SERVICES"
    and "fst (is_elasticsearch_healthy e w) = Inr True"
    and "search e (''rbcapp1-'' @ s) = Returns r"
    and "hits_total_value r = Inl ex"
  shows "\<exists>w'. healthcheck_service e req s w =
            (Inr (JObj [(''service'', JStr s),
                        (''status'', JStr ''NO_DATA''),
                        (''message'', JStr (''No status data found for '' @ s))], 200), w')"
proof -
  obtain w1 where h: "is_elasticsearch_healthy e
               (w\<lparr>log := log w @ [(INFO, req_method req @ '' '' @ path req @ '' - service: '' @ s)]\<rparr>)
               = (Inr True, w1)"
    and c1: "es_client w1 \<noteq> None"
    using resolveOne_probe[OF assms(2), of req s] by blast
  show ?thesis
    using assms(1) h lookup_malformed[OF c1 assms(3,4)]
    by (simp add: healthcheck_service_def py_defs)
qed

text \<open>
  C1, as the specification states it: with a reachable store, a lookup that raises
  makes \<open>GET /healthcheck/{service}\<close> answer the status \<open>UNKNOWN\<close>. The code does not:
  in \<open>env_up\<close> the search for rabbitmq raises, the probe is healthy, and the answer is
  200 with the status \<open>NO_DATA\<close>.
\<close>

theorem resolveOne_unknown_counterexample:
  "search env_up (''rbcapp1-'' @ ''rabbitmq'') = Raises ''index is corrupt'' \<and>
   fst (is_elasticsearch_healthy env_up world0) = Inr True \<and>
   fst (healthcheck_service env_up (get_req ''/healthcheck/rabbitmq'') ''rabbitmq'' world0) =
     Inr (JObj [(''service'', JStr ''rabbitmq''),
                (''status'', JStr ''NO_DATA''),
                (''message'', JStr ''No status data found for rabbitmq'')], 200) \<and>
   JStr ''NO_DATA'' \<noteq> JStr ''UNKNOWN''"
proof -
  have r: "search env_up (''rbcapp1-'' @ ''rabbitmq'') = Raises ''index is corrupt''"
    by (simp add: env_up_def)
  have h: "fst (is_elasticsearch_healthy env_up world0) = Inr True"
    by (simp add: healthy_fst probe_def env_up_def world0_def)
  obtain w1 where p: "is_elasticsearch_healthy env_up
               (world0\<lparr>log := log world0 @ [(INFO, req_method (get_req ''/healthcheck/rabbitmq'') @ '' '' @
                   path (get_req ''/healthcheck/rabbitmq'') @ '' - service: '' @ ''rabbitmq'')]\<rparr>)
               = (Inr True, w1)"
    and c1: "es_client w1 \<noteq> None"
    using resolveOne_probe[OF h, of "get_req ''/healthcheck/rabbitmq''" "''rabbitmq''"] by blast
  have "fst (healthcheck_service env_up (get_req ''/healthcheck/rabbitmq'') ''rabbitmq'' world0) =
     Inr (JObj [(''service'', JStr ''rabbitmq''),
                (''status'', JStr ''NO_DATA''),
                (''message'', JStr ''No status data found for rabbitmq'')], 200)"
    using p lookup_raises[OF c1 r]
    by (simp add: healthcheck_service_def py_defs SUPPORTED_SERVICES_def)
  with r h show ?thesis by simp
qed

text \<open>
  C1, amended. For every registered service, when the probe is healthy and the search
  for the service raises, \<open>get_service_status_from_elasticsearch\<close> catches the exception,
  logs it at level ERROR and returns \<open>None\<close>, so \<open>GET /healthcheck/{service}\<close> answers 200
  with the status \<open>NO_DATA\<close>, the answer of an empty collection; the request does not
  fail. (\<open>resolveOne_malformed_is_no_data\<close> is the same for an answer of the search that
  cannot be read.)
\<close>

theorem resolveOne_query_failure_is_no_data:
  assumes "s \<in> set SUPPORTED_SERVICES"
    and "fst (is_elasticsearch_healthy e w) = Inr True"
    and "search e (''rbcapp1-'' @ s) = Raises msg"
  shows "\<exists>w'. healthcheck_service e req s w =
            (Inr (JObj [(''service'', JStr s),
                        (''status'', JStr ''NO_DATA''),
                        (''message'', JStr (''No status data found for '' @ s))], 200), w') \<and>
          (ERROR, ''Error querying Elasticsearch for '' @ s @ '': '' @ msg) \<in> set (log w') \<and>
          store_calls w' = store_calls w @ [Ping, Search (''rbcapp1-'' @ s)]"
proof -
  obtain w1 where h: "is_elasticsearch_healthy e
               (w\<lparr>log := log w @ [(INFO, req_method req @ '' '' @ path req @ '' - service: '' @ s)]\<rparr>)
               = (Inr True, w1)"
    and c1: "es_client w1 \<noteq> None" and s1: "store_calls w1 = store_calls w @ [Ping]"
    using resolveOne_probe[OF assms(2), of req s] by blast
  show ?thesis
    using assms(1) h s1 lookup_raises[OF c1 assms(3)]
    by (simp add: healthcheck_service_def py_defs)
qed

theorem resolveOne_query_failure_is_no_data_witness:
  "''rabbitmq'' \<in> set SUPPORTED_SERVICES \<and>
   fst (is_elasticsearch_healthy env_up world0) = Inr True \<and>
   search env_up (''rbcapp1-'' @ ''rabbitmq'') = Raises ''index is corrupt'' \<and>
   (\<exists>w'. healthcheck_service env_up (get_req ''/healthcheck/rabbitmq'') ''rabbitmq'' world0 =
            (Inr (JObj [(''service'', JStr ''rabbitmq''),
                        (''status'', JStr ''NO_DATA''),
                        (''message'', JStr (''No status data found for '' @ ''rabbitmq''))], 200), w') \<and>
          (ERROR, ''Error querying Elasticsearch for '' @ ''rabbitmq'' @ '': '' @ ''index is corrupt'')
            \<in> set (log w') \<and>
          store_calls w' = store_calls world0 @ [Ping, Search (''rbcapp1-'' @ ''rabbitmq'')])"
proof -
  have m: "''rabbitmq'' \<in> set SUPPORTED_SERVICES"
    by (simp add: SUPPORTED_SERVICES_def)
  have h: "fst (is_elasticsearch_healthy env_up world0) = Inr True"
    by (simp add: healthy_fst probe_def env_up_def world0_def)
  have r: "search env_up (''rbcapp1-'' @ ''rabbitmq'') = Raises ''index is corrupt''"
    by (simp add: env_up_def)
  from resolveOne_query_failure_is_no_data[OF m h r, of "get_req ''/healthcheck/rabbitmq''"] m h r
  show ?thesis by blast
qed

text \<open>
  C7. For every registered service, with a healthy probe and a search that finds
  nothing (the total of the hits is 0), \<open>GET /healthcheck/{service}\<close> answers 200 with
  the status \<open>NO_DATA\<close>: a value, not a raised exception and not an error code.
\<close>

theorem resolveOne_empty_is_no_data:
  assumes "s \<in> set SUPPORTED_SERVICES"
    and "fst (is_elasticsearch_healthy e w) = Inr True"
    and "search e (''rbcapp1-'' @ s) = Returns r"
    and "hits_total_value r = Inr (JInt 0)"
  shows "\<exists>w'. healthcheck_service e req s w =
            (Inr (JObj [(''service'', JStr s),
                        (''status'', JStr ''NO_DATA''),
                        (''message'', JStr (''No status data found for '' @ s))], 200), w')"
proof -
  obtain w1 where h: "is_elasticsearch_healthy e
               (w\<lparr>log := log w @ [(INFO, req_method req @ '' '' @ path req @ '' - service: '' @ s)]\<rparr>)
               = (Inr True, w1)"
    and c1: "es_client w1 \<noteq> None"
    using resolveOne_probe[OF assms(2), of req s] by blast
  have z: "gt0 (JInt 0) = Inr False" by simp
  show ?thesis
    using assms(1) h lookup_empty[OF c1 assms(3,4) z]
    by (simp add: healthcheck_service_def py_defs)
qed

theorem resolveOne_empty_is_no_data_witness:
  "''postgresql'' \<in> set SUPPORTED_SERVICES \<and>
   fst (is_elasticsearch_healthy env_up world0) = Inr True \<and>
   search env_up (''rbcapp1-'' @ ''postgresql'') = Returns no_hits \<and>
   hits_total_value no_hits = Inr (JInt 0) \<and>
   (\<exists>w'. healthcheck_service env_up (get_req ''/healthcheck/postgresql'') ''postgresql'' world0 =
            (Inr (JObj [(''service'', JStr ''postgresql''),
                        (''status'', JStr ''NO_DATA''),
                        (''message'', JStr (''No status data found for '' @ ''postgresql''))], 200), w'))"
proof -
  have m: "''postgresql'' \<in> set SUPPORTED_SERVICES"
    by (simp add: SUPPORTED_SERVICES_def)
  have h: "fst (is_elasticsearch_healthy env_up world0) = Inr True"
    by (simp add: healthy_fst probe_def env_up_def world0_def)
  have r: "search env_up (''rbcapp1-'' @ ''postgresql'') = Returns no_hits"
    by (simp add: env_up_def)
  have z: "hits_total_value no_hits = Inr (JInt 0)"
    by (simp add: no_hits_def hits_total_value_def)
  from resolveOne_empty_is_no_data[OF m h r z, of "get_req ''/healthcheck/postgresql''"] m h r z
  show ?thesis by blast
qed

text \<open>
  C10. When the latest document of a registered service is found and has no
  \<open>service_status\<close> field, both \<open>GET /healthcheck/{service}\<close> and the entry of the service
  in \<open>GET /healthcheck\<close> carry the status \<open>UNKNOWN\<close>, and both requests answer 200; when
  the document has no \<open>@timestamp\<close> field, both carry the timestamp \<open>N/A\<close>.
\<close>

theorem missing_fields_default:
  assumes "s \<in> set SUPPORTED_SERVICES"
    and "fst (is_elasticsearch_healthy e w) = Inr True"
    and "search e (''rbcapp1-'' @ s) = Returns r"
    and "hits_total_value r = Inr n" and "gt0 n = Inr True"
    and "first_source r = Inr (JObj doc)"
  shows "\<exists>body w1 d w2.
           healthcheck_service e req s w = (Inr (body, 200), w1) \<and>
           healthcheck e req' w =
             (Inr (JObj [(''timestamp'', JStr (isoformat (clock e (ticks w)) @ ''Z'')),
                         (''services'', JObj d)], 200), w2) \<and>
           (\<exists>entry. map_of d s = Some entry \<and>
              (''service_status'' \<notin> fst ` set doc \<longrightarrow>
                 getitem body ''status'' = Inr (JStr ''UNKNOWN'') \<and>
                 getitem entry ''status'' = Inr (JStr ''UNKNOWN'')) \<and>
              (''@timestamp'' \<notin> fst ` set doc \<longrightarrow>
                 getitem body ''timestamp'' = Inr (JStr ''N/A'') \<and>
                 getitem entry ''timestamp'' = Inr (JStr ''N/A'')))"
proof -
  obtain w1 where h: "is_elasticsearch_healthy e
               (w\<lparr>log := log w @ [(INFO, req_method req @ '' '' @ path req @ '' - service: '' @ s)]\<rparr>)
               = (Inr True, w1)"
    and c1: "es_client w1 \<noteq> None"
    using resolveOne_probe[OF assms(2), of req s] by blast
  let ?body = "JObj [(''service'', JStr s),
      (''status'', case map_of doc ''service_status'' of Some v \<Rightarrow> v | None \<Rightarrow> JStr ''UNKNOWN''),
      (''host_name'', case map_of doc ''host_name'' of Some v \<Rightarrow> v | None \<Rightarrow> JStr ''N/A''),
      (''timestamp'', case map_of doc ''@timestamp'' of Some v \<Rightarrow> v | None \<Rightarrow> JStr ''N/A'')]"
  have one: "\<exists>w1. healthcheck_service e req s w = (Inr (?body, 200), w1)"
    using assms(1) h lookup_found[OF c1 assms(3,4,5,6)]
    by (simp add: healthcheck_service_def py_defs Let_def)
  obtain d w2 where all: "healthcheck e req' w =
             (Inr (JObj [(''timestamp'', JStr (isoformat (clock e (ticks w)) @ ''Z'')),
                         (''services'', JObj d)], 200), w2)"
    and v: "\<forall>s \<in> set SUPPORTED_SERVICES. map_of d s = Some (bulk_entry e s)"
    using healthcheck_healthy[OF assms(2), of req'] by blast
  have entry: "bulk_entry e s =
      JObj [(''status'', case map_of doc ''service_status'' of Some v \<Rightarrow> v | None \<Rightarrow> JStr ''UNKNOWN''),
            (''timestamp'', case map_of doc ''@timestamp'' of Some v \<Rightarrow> v | None \<Rightarrow> JStr ''N/A'')]"
    using assms(3-6) by (simp add: bulk_entry_def status_entry_def)
  let ?entry = "JObj [(''status'', case map_of doc ''service_status'' of Some v \<Rightarrow> v | None \<Rightarrow> JStr ''UNKNOWN''),
            (''timestamp'', case map_of doc ''@timestamp'' of Some v \<Rightarrow> v | None \<Rightarrow> JStr ''N/A'')]"
  have m: "map_of d s = Some ?entry"
    using v assms(1) entry by simp
  have k1: "''service_status'' \<notin> fst ` set doc \<Longrightarrow> map_of doc ''service_status'' = None"
    by (simp add: map_of_eq_None_iff)
  have k2: "''@timestamp'' \<notin> fst ` set doc \<Longrightarrow> map_of doc ''@timestamp'' = None"
    by (simp add: map_of_eq_None_iff)
  from one obtain w1' where one': "healthcheck_service e req s w = (Inr (?body, 200), w1')" by blast
  have fields: "(''service_status'' \<notin> fst ` set doc \<longrightarrow>
                 getitem ?body ''status'' = Inr (JStr ''UNKNOWN'') \<and>
                 getitem ?entry ''status'' = Inr (JStr ''UNKNOWN'')) \<and>
              (''@timestamp'' \<notin> fst ` set doc \<longrightarrow>
                 getitem ?body ''timestamp'' = Inr (JStr ''N/A'') \<and>
                 getitem ?entry ''timestamp'' = Inr (JStr ''N/A''))"
    using k1 k2 by simp
  show ?thesis
    using one' all m fields by blast
qed

theorem missing_fields_default_witness:
  "\<exists>body w1 d w2 entry.
     healthcheck_service env_up (get_req ''/healthcheck/httpd'') ''httpd'' world0 = (Inr (body, 200), w1) \<and>
     healthcheck env_up (get_req ''/healthcheck'') world0 =
       (Inr (JObj [(''timestamp'', JStr (isoformat (clock env_up (ticks world0)) @ ''Z'')),
                   (''services'', JObj d)], 200), w2) \<and>
     map_of d ''httpd'' = Some entry \<and>
     getitem body ''status'' = Inr (JStr ''UNKNOWN'') \<and>
     getitem entry ''status'' = Inr (JStr ''UNKNOWN'') \<and>
     getitem body ''timestamp'' = Inr (JStr ''N/A'') \<and>
     getitem entry ''timestamp'' = Inr (JStr ''N/A'')"
proof -
  let ?doc = "[(''service_name'', JStr ''httpd''), (''host_name'', JStr ''h1'')]"
  have m: "''httpd'' \<in> set SUPPORTED_SERVICES"
    by (simp add: SUPPORTED_SERVICES_def)
  have h: "fst (is_elasticsearch_healthy env_up world0) = Inr True"
    by (simp add: healthy_fst probe_def env_up_def world0_def)
  have r: "search env_up (''rbcapp1-'' @ ''httpd'') = Returns found_httpd"
    by (simp add: env_up_def)
  have n: "hits_total_value found_httpd = Inr (JInt 1)"
    by (simp add: found_httpd_def hits_total_value_def)
  have g: "gt0 (JInt 1) = Inr True" by simp
  have f: "first_source found_httpd = Inr (JObj ?doc)"
    by (simp add: found_httpd_def first_source_def)
  have k: "''service_status'' \<notin> fst ` set ?doc" "''@timestamp'' \<notin> fst ` set ?doc"
    by simp_all
  from missing_fields_default[OF m h r n g f, of "get_req ''/healthcheck/httpd''" "get_req ''/healthcheck''"] k
  show ?thesis by blast
qed

section \<open>Submission\<close>

lemma missing_of_dict:
  "missing_of (JObj fs) fl = Inr (filter (\<lambda>f. f \<notin> fst ` set fs) fl)"
  by (induction fl) auto

lemma find_registered:
  "name \<in> set xs \<Longrightarrow> find (\<lambda>s. JStr s = JStr name) xs = Some name"
  by (induction xs) auto

lemma find_unregistered:
  "(\<forall>name \<in> set xs. v \<noteq> JStr name) \<Longrightarrow> find (\<lambda>s. JStr s = v) xs = None"
  by (induction xs) auto

lemma well_formed_missing:
  "(\<forall>f \<in> set required_fields. f \<in> fst ` set fs) \<Longrightarrow> missing_of (JObj fs) required_fields = Inr []"
  by (simp add: missing_of_dict filter_empty_conv)

lemma malformed_missing:
  "\<not> (\<forall>f \<in> set required_fields. f \<in> fst ` set fs) \<Longrightarrow>
   filter (\<lambda>f. f \<notin> fst ` set fs) required_fields \<noteq> []"
  by (simp add: filter_empty_conv)

lemma add_status_malformed:
  assumes "is_json req" and "get_json req = JObj fs"
    and "\<not> (\<forall>f \<in> set required_fields. f \<in> fst ` set fs)"
  shows "add_status e req w =
           (Inr (JObj [(''error'', JStr (''Missing required fields: '' @
                          py_str e (JArr (map JStr (filter (\<lambda>f. f \<notin> fst ` set fs) required_fields))))),
                       (''required_fields'', JArr (map JStr required_fields))], 400),
            w\<lparr>log := log w @
               [(INFO, req_method req @ '' '' @ path req),
                (INFO, ''Received JSON: '' @ py_str e (JObj fs)),
                (ERROR, ''Missing required fields: '' @
                   py_str e (JArr (map JStr (filter (\<lambda>f. f \<notin> fst ` set fs) required_fields))))]\<rparr>)"
  using assms(1,2) malformed_missing[OF assms(3)]
  by (simp add: add_status_def py_defs missing_of_dict Let_def)

lemma add_status_unknown:
  assumes "is_json req" and "get_json req = JObj fs"
    and "\<forall>f \<in> set required_fields. f \<in> fst ` set fs"
    and "\<forall>name \<in> set SUPPORTED_SERVICES. map_of fs ''service_name'' \<noteq> Some (JStr name)"
  shows "\<exists>v. map_of fs ''service_name'' = Some v \<and>
         add_status e req w =
           (Inr (JObj [(''error'', JStr (''Unknown service: '' @ py_str e v)),
                       (''supported_services'', JArr (map JStr SUPPORTED_SERVICES))], 400),
            w\<lparr>log := log w @
               [(INFO, req_method req @ '' '' @ path req),
                (INFO, ''Received JSON: '' @ py_str e (JObj fs)),
                (ERROR, ''Unknown service: '' @ py_str e v)]\<rparr>)"
proof -
  from assms(3) have "''service_name'' \<in> fst ` set fs" by (simp add: required_fields_def)
  then obtain v where v: "map_of fs ''service_name'' = Some v"
    by (metis map_of_eq_None_iff not_Some_eq)
  with assms(4) have "\<forall>name \<in> set SUPPORTED_SERVICES. v \<noteq> JStr name" by auto
  then have f: "find (\<lambda>s. JStr s = v) SUPPORTED_SERVICES = None" by (rule find_unregistered)
  show ?thesis
    using assms(1,2) v f well_formed_missing[OF assms(3)]
    by (simp add: add_status_def py_defs Let_def)
qed

lemma add_status_down:
  assumes "is_json req" and "get_json req = JObj fs"
    and "\<forall>f \<in> set required_fields. f \<in> fst ` set fs"
    and "map_of fs ''service_name'' = Some (JStr name)" and "name \<in> set SUPPORTED_SERVICES"
    and "fst (is_elasticsearch_healthy e w) = Inr False"
  shows "\<exists>w'. add_status e req w =
           (Inr (JObj [(''error'', JStr ''Elasticsearch unavailable''),
                       (''status'', JStr ''FAILED'')], 503), w') \<and>
         (store_calls w' = store_calls w \<or> store_calls w' = store_calls w @ [Ping])"
proof -
  let ?w0 = "w\<lparr>log := log w @ [(INFO, req_method req @ '' '' @ path req),
                               (INFO, ''Received JSON: '' @ py_str e (JObj fs))]\<rparr>"
  from assms(6) have p: "\<not> probe e ?w0" by (simp add: healthy_fst)
  obtain w1 where h: "is_elasticsearch_healthy e ?w0 = (Inr False, w1)"
    and s1: "store_calls w1 = store_calls ?w0 \<or> store_calls w1 = store_calls ?w0 @ [Ping]"
    using healthy_down[OF p] by blast
  have f: "find (\<lambda>s. JStr s = JStr name) SUPPORTED_SERVICES = Some name"
    using assms(5) by (rule find_registered)
  have "add_status e req w =
           (Inr (JObj [(''error'', JStr ''Elasticsearch unavailable''),
                       (''status'', JStr ''FAILED'')], 503),
            w1\<lparr>log := log w1 @ [(ERROR, ''Cannot insert status: Elasticsearch unavailable'')]\<rparr>)"
    using assms(1,2,4) f h well_formed_missing[OF assms(3)]
    by (simp add: add_status_def py_defs Let_def)
  with s1 show ?thesis by auto
qed

lemma add_status_accepted:
  assumes "is_json req" and "get_json req = JObj fs"
    and "\<forall>f \<in> set required_fields. f \<in> fst ` set fs"
    and "map_of fs ''service_name'' = Some (JStr name)" and "name \<in> set SUPPORTED_SERVICES"
    and "fst (is_elasticsearch_healthy e w) = Inr True"
    and "ts = JStr (isoformat (clock e (ticks w)) @ ''Z'')"
    and "doc = JObj (AList.update ''timestamp'' ts (AList.update ''@timestamp'' ts fs))"
    and "index e (''rbcapp1-'' @ name) doc = Returns (JObj r)"
  shows "\<exists>w'. add_status e req w =
           (Inr (JObj [(''message'', JStr (''Status for '' @ name @ '' successfully added to Elasticsearch'')),
                       (''service'', JStr name),
                       (''status'', case map_of fs ''service_status'' of Some v \<Rightarrow> v | None \<Rightarrow> JNull),
                       (''host_name'', case map_of fs ''host_name'' of Some v \<Rightarrow> v | None \<Rightarrow> JNull),
                       (''timestamp'', ts),
                       (''elasticsearch_id'', case map_of r ''_id'' of Some v \<Rightarrow> v | None \<Rightarrow> JNull)], 201), w') \<and>
         store_calls w' = store_calls w @ [Ping, Index (''rbcapp1-'' @ name) doc]"
proof -
  let ?w0 = "w\<lparr>log := log w @ [(INFO, req_method req @ '' '' @ path req),
                               (INFO, ''Received JSON: '' @ py_str e (JObj fs))]\<rparr>"
  from assms(6) have p: "probe e ?w0" by (simp add: healthy_fst)
  obtain w1 where h: "is_elasticsearch_healthy e ?w0 = (Inr True, w1)"
    and c1: "es_client w1 \<noteq> None" and s1: "store_calls w1 = store_calls ?w0 @ [Ping]"
    and t1: "ticks w1 = ticks ?w0"
    using healthy_up[OF p] by blast
  from c1 obtain c where c: "es_client w1 = Some c" by auto
  then have g: "get_elasticsearch_client e w1 = (Inr (Some c), w1)"
    using client_present[of w1 e] by simp
  have f: "find (\<lambda>s. JStr s = JStr name) SUPPORTED_SERVICES = Some name"
    using assms(5) by (rule find_registered)
  have i: "index e (''rbcapp1-'' @ name)
             (JObj (AList.update ''timestamp'' (JStr (isoformat (clock e (ticks w1)) @ ''Z''))
                (AList.update ''@timestamp'' (JStr (isoformat (clock e (ticks w1)) @ ''Z'')) fs)))
           = Returns (JObj r)"
    using assms(7,8,9) t1 by simp
  show ?thesis
    using assms(1,2,4,7,8) f h g i s1 t1 well_formed_missing[OF assms(3)]
    by (simp add: add_status_def py_defs Let_def es_index_def update_conv')
qed

lemma add_status_healthy_calls:
  assumes "is_json req" and "get_json req = JObj fs"
    and "\<forall>f \<in> set required_fields. f \<in> fst ` set fs"
    and "map_of fs ''service_name'' = Some (JStr name)" and "name \<in> set SUPPORTED_SERVICES"
    and "fst (is_elasticsearch_healthy e w) = Inr True"
    and "ts = JStr (isoformat (clock e (ticks w)) @ ''Z'')"
  shows "\<exists>r w'. add_status e req w = (Inr r, w') \<and>
         store_calls w' = store_calls w @
           [Ping, Index (''rbcapp1-'' @ name)
                    (JObj (AList.update ''timestamp'' ts (AList.update ''@timestamp'' ts fs)))]"
proof -
  let ?w0 = "w\<lparr>log := log w @ [(INFO, req_method req @ '' '' @ path req),
                               (INFO, ''Received JSON: '' @ py_str e (JObj fs))]\<rparr>"
  let ?doc = "JObj (AList.update ''timestamp'' ts (AList.update ''@timestamp'' ts fs))"
  from assms(6) have p: "probe e ?w0" by (simp add: healthy_fst)
  obtain w1 where h: "is_elasticsearch_healthy e ?w0 = (Inr True, w1)"
    and c1: "es_client w1 \<noteq> None" and s1: "store_calls w1 = store_calls ?w0 @ [Ping]"
    and t1: "ticks w1 = ticks ?w0"
    using healthy_up[OF p] by blast
  from c1 obtain c where c: "es_client w1 = Some c" by auto
  then have g: "get_elasticsearch_client e w1 = (Inr (Some c), w1)"
    using client_present[of w1 e] by simp
  have f: "find (\<lambda>s. JStr s = JStr name) SUPPORTED_SERVICES = Some name"
    using assms(5) by (rule find_registered)
  have ts1: "JStr (isoformat (clock e (ticks w1)) @ ''Z'') = ts"
    using assms(7) t1 by simp
  show ?thesis
  proof (cases "index e (''rbcapp1-'' @ name) ?doc")
    case (Raises msg)
    then show ?thesis
      using assms(1,2,4) f h g s1 ts1 well_formed_missing[OF assms(3)]
      by (simp add: add_status_def py_defs Let_def es_index_def update_conv')
  next
    case (Returns res)
    then show ?thesis
      using assms(1,2,4) f h g s1 ts1 well_formed_missing[OF assms(3)]
      by (cases res) (simp_all add: add_status_def py_defs Let_def es_index_def update_conv')
  qed
qed

text \<open>A request that is not JSON is refused; a JSON body that is a number makes the
  test \<open>field not in data\<close> raise, outside any \<open>try\<close> of the handler.\<close>

lemma add_status_not_json:
  assumes "\<not> is_json req"
  shows "add_status e req w =
           (Inr (JObj [(''error'', JStr ''Request must be JSON'')], 400),
            w\<lparr>log := log w @ [(INFO, req_method req @ '' '' @ path req),
                               (ERROR, ''Request is not JSON'')]\<rparr>)"
  using assms by (simp add: add_status_def py_defs)

lemma add_status_number_body:
  assumes "is_json req" and "get_json req = JInt n"
  shows "fst (add_status e req w) =
           Inl (TypeError (''argument of type '' @ quoted ''int'' @ '' is not iterable'')) \<and>
         store_calls (snd (add_status e req w)) = store_calls w"
  using assms by (simp add: add_status_def py_defs Let_def required_fields_def)

lemma add_status_calls:
  "store_calls (snd (add_status e req w)) = store_calls w \<or>
   store_calls (snd (add_status e req w)) = store_calls w @ [Ping] \<or>
   (\<exists>fs name. get_json req = JObj fs \<and> name \<in> set SUPPORTED_SERVICES \<and>
      store_calls (snd (add_status e req w)) = store_calls w @
        [Ping, Index (''rbcapp1-'' @ name)
           (JObj (AList.update ''timestamp'' (JStr (isoformat (clock e (ticks w)) @ ''Z''))
              (AList.update ''@timestamp'' (JStr (isoformat (clock e (ticks w)) @ ''Z'')) fs)))])"
proof (cases "is_json req")
  case False
  then show ?thesis by (simp add: add_status_def py_defs)
next
  case True
  note J = this
  show ?thesis
  proof (cases "get_json req")
    case JNull
    with J show ?thesis by (simp add: add_status_def py_defs Let_def required_fields_def)
  next
    case (JBool b)
    with J show ?thesis by (simp add: add_status_def py_defs Let_def required_fields_def)
  next
    case (JInt n)
    with J show ?thesis by (simp add: add_status_def py_defs Let_def required_fields_def)
  next
    case (JStr s)
    with J show ?thesis by (simp add: add_status_def py_defs Let_def required_fields_def)
  next
    case (JArr xs)
    with J show ?thesis by (simp add: add_status_def py_defs Let_def required_fields_def)
  next
    case (JObj fs)
    note D = this
    show ?thesis
    proof (cases "\<forall>f \<in> set required_fields. f \<in> fst ` set fs")
      case False
      from add_status_malformed[OF J D False, of e w] show ?thesis by simp
    next
      case True
      note A = this
      show ?thesis
      proof (cases "\<exists>name \<in> set SUPPORTED_SERVICES. map_of fs ''service_name'' = Some (JStr name)")
        case False
        then have "\<forall>name \<in> set SUPPORTED_SERVICES. map_of fs ''service_name'' \<noteq> Some (JStr name)"
          by blast
        from add_status_unknown[OF J D A this, of e w] show ?thesis by auto
      next
        case True
        then obtain name where n: "name \<in> set SUPPORTED_SERVICES"
          and m: "map_of fs ''service_name'' = Some (JStr name)" by blast
        show ?thesis
        proof (cases "probe e w")
          case False
          then have "fst (is_elasticsearch_healthy e w) = Inr False" by (simp add: healthy_fst)
          from add_status_down[OF J D A m n this] show ?thesis by auto
        next
          case True
          then have "fst (is_elasticsearch_healthy e w) = Inr True" by (simp add: healthy_fst)
          from add_status_healthy_calls[OF J D A m n this refl] D n show ?thesis by auto
        qed
      qed
    qed
  qed
qed

lemma healthcheck_down:
  assumes "fst (is_elasticsearch_healthy e w) = Inr False"
  shows "\<exists>w'. healthcheck e req w =
           (Inr (JObj [(''error'', JStr ''Elasticsearch unavailable''),
                       (''status'', JStr ''UNKNOWN'')], 503), w') \<and>
         (store_calls w' = store_calls w \<or> store_calls w' = store_calls w @ [Ping])"
proof -
  let ?w0 = "w\<lparr>log := log w @ [(INFO, req_method req @ '' '' @ path req)]\<rparr>"
  from assms have p: "\<not> probe e ?w0" by (simp add: healthy_fst)
  obtain w1 where h: "is_elasticsearch_healthy e ?w0 = (Inr False, w1)"
    and s1: "store_calls w1 = store_calls ?w0 \<or> store_calls w1 = store_calls ?w0 @ [Ping]"
    using healthy_down[OF p] by blast
  have "healthcheck e req w =
           (Inr (JObj [(''error'', JStr ''Elasticsearch unavailable''),
                       (''status'', JStr ''UNKNOWN'')], 503),
            w1\<lparr>log := log w1 @ [(WARNING, ''Cannot retrieve statuses: Elasticsearch unavailable'')]\<rparr>)"
    using h by (simp add: healthcheck_def py_defs)
  with s1 show ?thesis by auto
qed

lemma healthcheck_service_down:
  assumes "s \<in> set SUPPORTED_SERVICES" and "fst (is_elasticsearch_healthy e w) = Inr False"
  shows "\<exists>w'. healthcheck_service e req s w =
           (Inr (JObj [(''service'', JStr s),
                       (''status'', JStr ''UNKNOWN''),
                       (''reason'', JStr ''Elasticsearch unavailable'')], 503), w') \<and>
         (store_calls w' = store_calls w \<or> store_calls w' = store_calls w @ [Ping])"
proof -
  let ?w0 = "w\<lparr>log := log w @ [(INFO, req_method req @ '' '' @ path req @ '' - service: '' @ s)]\<rparr>"
  from assms(2) have p: "\<not> probe e ?w0" by (simp add: healthy_fst)
  obtain w1 where h: "is_elasticsearch_healthy e ?w0 = (Inr False, w1)"
    and s1: "store_calls w1 = store_calls ?w0 \<or> store_calls w1 = store_calls ?w0 @ [Ping]"
    using healthy_down[OF p] by blast
  have "healthcheck_service e req s w =
           (Inr (JObj [(''service'', JStr s),
                       (''status'', JStr ''UNKNOWN''),
                       (''reason'', JStr ''Elasticsearch unavailable'')], 503),
            w1\<lparr>log := log w1 @ [(WARNING, ''Cannot retrieve '' @ s @ '' status: Elasticsearch unavailable'')]\<rparr>)"
    using assms(1) h by (simp add: healthcheck_service_def py_defs)
  with s1 show ?thesis by auto
qed

lemma healthcheck_service_unknown:
  assumes "s \<notin> set SUPPORTED_SERVICES"
  shows "healthcheck_service e req s w =
           (Inr (JObj [(''error'', JStr (''Unknown service: '' @ s)),
                       (''available_services'', JArr (map JStr SUPPORTED_SERVICES))], 400),
            w\<lparr>log := log w @ [(INFO, req_method req @ '' '' @ path req @ '' - service: '' @ s),
                               (WARNING, ''Unknown service requested: '' @ s)]\<rparr>)"
  using assms by (simp add: healthcheck_service_def py_defs)

lemma no_read_or_write:
  "store_calls w' = store_calls w \<or> store_calls w' = store_calls w @ [Ping] \<Longrightarrow>
   filter is_read_or_write (store_calls w') = filter is_read_or_write (store_calls w)"
  by auto

lemma healthy_env_up: "fst (is_elasticsearch_healthy env_up world0) = Inr True"
  by (simp add: healthy_fst probe_def env_up_def world0_def)

lemma unhealthy_env_down: "fst (is_elasticsearch_healthy env_down world0) = Inr False"
  by (simp add: healthy_fst probe_def env_down_def env_up_def world0_def)

section \<open>The shape of the time stamps\<close>

lemma digit_char_digit: "is_digit (digit_char d)"
proof -
  have "d mod 10 < length ''0123456789''" by simp
  then have "''0123456789'' ! (d mod 10) \<in> set ''0123456789''" by (rule nth_mem)
  then show ?thesis by (simp only: is_digit_def digit_char_def)
qed

lemma dec_digits: "list_all is_digit (dec n)"
proof (induction n rule: dec.induct)
  case (1 n)
  then show ?case
    by (subst dec.simps) (simp add: digit_char_digit)
qed

lemma dec_length: "0 < k \<Longrightarrow> n < 10 ^ k \<Longrightarrow> length (dec n) \<le> k"
proof (induction k arbitrary: n)
  case 0
  then show ?case by simp
next
  case (Suc k)
  show ?case
  proof (cases "n < 10")
    case True
    then show ?thesis by (subst dec.simps) simp
  next
    case False
    with Suc.prems have k: "0 < k" by (cases k) auto
    from Suc.prems have "n div 10 < 10 ^ k" by (simp add: less_mult_imp_div_less mult.commute)
    with Suc.IH[OF k] have "length (dec (n div 10)) \<le> k" by simp
    with False show ?thesis by (subst dec.simps) simp
  qed
qed

lemma zpad_length: "0 < k \<Longrightarrow> n < 10 ^ k \<Longrightarrow> length (zpad k n) = k"
  using dec_length[of k n] by (simp add: zpad_def)

lemma zero_digit: "is_digit (CHR ''0'')"
  by (simp add: is_digit_def)

lemma zpad_digits: "list_all is_digit (zpad k n)"
  using dec_digits[of n] by (auto simp: zpad_def list_all_iff zero_digit)

lemma list2: "length xs = 2 \<Longrightarrow> \<exists>a b. xs = [a, b]"
  by (auto simp: numeral_eq_Suc length_Suc_conv)

lemma list4: "length xs = 4 \<Longrightarrow> \<exists>a b c d. xs = [a, b, c, d]"
  by (auto simp: numeral_eq_Suc length_Suc_conv)

lemma list6: "length xs = 6 \<Longrightarrow> \<exists>a b c d e f. xs = [a, b, c, d, e, f]"
  by (auto simp: numeral_eq_Suc length_Suc_conv)

lemma iso_shape_short:
  assumes "length y = 4" "length m = 2" "length d = 2" "length h = 2" "length mi = 2" "length s = 2"
    and "list_all is_digit y" "list_all is_digit m" "list_all is_digit d"
        "list_all is_digit h" "list_all is_digit mi" "list_all is_digit s"
  shows "is_iso8601_utc (y @ ''-'' @ m @ ''-'' @ d @ ''T'' @ h @ '':'' @ mi @ '':'' @ s @ ''Z'')"
proof -
  from list4[OF assms(1)] obtain y1 y2 y3 y4 where y: "y = [y1, y2, y3, y4]" by blast
  from list2[OF assms(2)] obtain m1 m2 where m: "m = [m1, m2]" by blast
  from list2[OF assms(3)] obtain d1 d2 where d: "d = [d1, d2]" by blast
  from list2[OF assms(4)] obtain h1 h2 where h: "h = [h1, h2]" by blast
  from list2[OF assms(5)] obtain n1 n2 where mi: "mi = [n1, n2]" by blast
  from list2[OF assms(6)] obtain s1 s2 where s: "s = [s1, s2]" by blast
  show ?thesis
    using assms(7-12) unfolding y m d h mi s
    by (simp add: is_iso8601_utc_def)
qed

lemma iso_shape_long:
  assumes "length y = 4" "length m = 2" "length d = 2" "length h = 2" "length mi = 2" "length s = 2"
    and "length f = 6"
    and "list_all is_digit y" "list_all is_digit m" "list_all is_digit d"
        "list_all is_digit h" "list_all is_digit mi" "list_all is_digit s" "list_all is_digit f"
  shows "is_iso8601_utc (y @ ''-'' @ m @ ''-'' @ d @ ''T'' @ h @ '':'' @ mi @ '':'' @ s @ ''.'' @ f @ ''Z'')"
proof -
  from list4[OF assms(1)] obtain y1 y2 y3 y4 where y: "y = [y1, y2, y3, y4]" by blast
  from list2[OF assms(2)] obtain m1 m2 where m: "m = [m1, m2]" by blast
  from list2[OF assms(3)] obtain d1 d2 where d: "d = [d1, d2]" by blast
  from list2[OF assms(4)] obtain h1 h2 where h: "h = [h1, h2]" by blast
  from list2[OF assms(5)] obtain n1 n2 where mi: "mi = [n1, n2]" by blast
  from list2[OF assms(6)] obtain s1 s2 where s: "s = [s1, s2]" by blast
  from list6[OF assms(7)] obtain f1 f2 f3 f4 f5 f6 where f: "f = [f1, f2, f3, f4, f5, f6]" by blast
  show ?thesis
    using assms(8-14) unfolding y m d h mi s f
    by (simp add: is_iso8601_utc_def)
qed

lemma isoformat_iso:
  assumes "valid_datetime t"
  shows "is_iso8601_utc (isoformat t @ ''Z'')"
proof -
  from assms have b: "year t < 10 ^ 4" "month t < 10 ^ 2" "day t < 10 ^ 2" "hour t < 10 ^ 2"
    "minute t < 10 ^ 2" "second t < 10 ^ 2" "microsecond t < 10 ^ 6"
    by (simp_all add: valid_datetime_def)
  have l: "length (zpad 4 (year t)) = 4" "length (zpad 2 (month t)) = 2"
    "length (zpad 2 (day t)) = 2" "length (zpad 2 (hour t)) = 2"
    "length (zpad 2 (minute t)) = 2" "length (zpad 2 (second t)) = 2"
    "length (zpad 6 (microsecond t)) = 6"
    using b by (simp_all only: zpad_length zero_less_numeral)
  show ?thesis
  proof (cases "microsecond t = 0")
    case True
    then have "isoformat t @ ''Z'' =
      zpad 4 (year t) @ ''-'' @ zpad 2 (month t) @ ''-'' @ zpad 2 (day t) @ ''T'' @
      zpad 2 (hour t) @ '':'' @ zpad 2 (minute t) @ '':'' @ zpad 2 (second t) @ ''Z''"
      by (simp add: isoformat_def)
    then show ?thesis
      using iso_shape_short[OF l(1-6) zpad_digits zpad_digits zpad_digits zpad_digits zpad_digits zpad_digits]
      by simp
  next
    case False
    then have "isoformat t @ ''Z'' =
      zpad 4 (year t) @ ''-'' @ zpad 2 (month t) @ ''-'' @ zpad 2 (day t) @ ''T'' @
      zpad 2 (hour t) @ '':'' @ zpad 2 (minute t) @ '':'' @ zpad 2 (second t) @ ''.'' @
      zpad 6 (microsecond t) @ ''Z''"
      by (simp add: isoformat_def)
    then show ?thesis
      using iso_shape_long[OF l(1-7) zpad_digits zpad_digits zpad_digits zpad_digits zpad_digits
          zpad_digits zpad_digits]
      by simp
  qed
qed

lemma iso_ends_Z:
  assumes "is_iso8601_utc s"
  shows "s \<noteq> [] \<and> last s = CHR ''Z''"
proof -
  from assms have len: "length s = 20 \<or> length s = 27" by (simp add: is_iso8601_utc_def)
  then have ne: "s \<noteq> []" by auto
  then have l: "last s = s ! (length s - 1)" by (rule last_conv_nth)
  from len show ?thesis
  proof
    assume a: "length s = 20"
    with assms have "s ! 19 = CHR ''Z''" by (simp add: is_iso8601_utc_def)
    with l a ne show ?thesis by simp
  next
    assume a: "length s = 27"
    with assms have "s ! 26 = CHR ''Z''" by (simp add: is_iso8601_utc_def)
    with l a ne show ?thesis by simp
  qed
qed

lemma replicate_numeral: "replicate (numeral k) x = x # replicate (pred_numeral k) x"
  by (simp add: numeral_eq_Suc)

lemma iso_time0: "isoformat (clock env_up 0) @ ''Z'' = ''2025-03-07T09:05:00.000123Z''"
  by (simp add: env_up_def time0_def isoformat_def zpad_def dec.simps digit_char_def replicate_numeral)

lemma strftime_env_up:
  "strftime (clock env_up (Suc 0)) = ''20250307T090501''"
  "strftime (clock env_up 3) = ''20250307T090503''"
  by (simp_all add: env_up_def time0_def strftime_def zpad_def dec.simps digit_char_def replicate_numeral)

lemma clock_env_up_valid: "valid_datetime (clock env_up n)"
  by (simp add: env_up_def time0_def valid_datetime_def)

lemma set_update_cases:
  "(p, v') \<in> set (AList.update k v al) \<Longrightarrow> (p, v') = (k, v) \<or> (p, v') \<in> set al"
  by (induction al) (auto split: if_splits)

lemma stamped_doc:
  assumes "valid_datetime t"
  shows "carries_both_timestamps
           (JObj (AList.update ''timestamp'' (JStr (isoformat t @ ''Z''))
              (AList.update ''@timestamp'' (JStr (isoformat t @ ''Z'')) fs)))"
  using isoformat_iso[OF assms] iso_ends_Z[OF isoformat_iso[OF assms]]
  by (simp add: carries_both_timestamps_def update_conv')

lemma stamped_payload:
  assumes "valid_datetime (clock e (ticks w))"
  shows "carries_both_timestamps (status_payload e s st w)"
  using isoformat_iso[OF assms] iso_ends_Z[OF isoformat_iso[OF assms]]
  by (simp add: carries_both_timestamps_def status_payload_def)

section \<open>The cycle of the monitor\<close>

lemma generate_ok:
  assumes "open_w e (status_file e self s st w) = Returns ()"
  shows "generate_status_json e self s st w =
           (Inr (),
            w\<lparr>ticks := Suc (Suc (ticks w)),
              opened := opened w @ [status_file e self s st w],
              files := AList.update (status_file e self s st w) (status_payload e s st w) (files w),
              log := log w @ [(INFO, ''Generated: '' @ s @ ''-'' @ st @ ''-'' @
                     strftime (clock e (Suc (ticks w))) @ ''.json'' @ '' -> '' @ st)]\<rparr>)"
  using assms
  by (simp add: generate_status_json_def status_file_def status_payload_def open_for_write_def
      json_dump_def py_defs Let_def)

lemma generate_fail:
  assumes "open_w e (status_file e self s st w) = Raises msg"
  shows "generate_status_json e self s st w =
           (Inl (OSError msg),
            w\<lparr>ticks := Suc (Suc (ticks w)),
              opened := opened w @ [status_file e self s st w]\<rparr>)"
  using assms
  by (simp add: generate_status_json_def status_file_def status_payload_def open_for_write_def
      json_dump_def py_defs Let_def)

lemma generate_cases:
  "(\<exists>w'. generate_status_json e self s st w = (Inr (), w') \<and>
          opened w' = opened w @ [status_file e self s st w] \<and>
          files w' = AList.update (status_file e self s st w) (status_payload e s st w) (files w)) \<or>
   (\<exists>msg w'. generate_status_json e self s st w = (Inl (OSError msg), w') \<and>
          opened w' = opened w @ [status_file e self s st w] \<and> files w' = files w)"
proof (cases "open_w e (status_file e self s st w)")
  case (Returns u)
  then show ?thesis using generate_ok[of e self s st w] by simp
next
  case (Raises msg)
  then show ?thesis using generate_fail[of e self s st w msg] by simp
qed

lemma monitor_services_opened:
  "monitor_services e self svcs w = (Inr (), w') \<Longrightarrow>
   length (opened w') = length (opened w) + length svcs"
proof (induction svcs arbitrary: w)
  case Nil
  then show ?case by (simp add: ret_def)
next
  case (Cons s rest)
  from generate_cases[of e self s "get_service_status self s" w] show ?case
  proof
    assume "\<exists>w1. generate_status_json e self s (get_service_status self s) w = (Inr (), w1) \<and>
          opened w1 = opened w @ [status_file e self s (get_service_status self s) w] \<and>
          files w1 = AList.update (status_file e self s (get_service_status self s) w)
             (status_payload e s (get_service_status self s) w) (files w)"
    then obtain w1 where g: "generate_status_json e self s (get_service_status self s) w = (Inr (), w1)"
      and o: "opened w1 = opened w @ [status_file e self s (get_service_status self s) w]" by blast
    from Cons.prems g have "monitor_services e self rest w1 = (Inr (), w')"
      by (simp add: seq_def bnd_def)
    from Cons.IH[OF this] o show ?thesis by simp
  next
    assume "\<exists>msg w1. generate_status_json e self s (get_service_status self s) w = (Inl (OSError msg), w1) \<and>
          opened w1 = opened w @ [status_file e self s (get_service_status self s) w] \<and> files w1 = files w"
    with Cons.prems show ?thesis by (auto simp: seq_def bnd_def)
  qed
qed

lemma monitor_services_stops:
  assumes "monitor_services e self pre w = (Inr (), w1)"
    and "generate_status_json e self s (get_service_status self s) w1 = (Inl ex, w2)"
  shows "monitor_services e self (pre @ s # post) w = (Inl ex, w2)"
  using assms
proof (induction pre arbitrary: w)
  case Nil
  then show ?case by (simp add: seq_def bnd_def ret_def)
next
  case (Cons a pre)
  obtain r wa where g: "generate_status_json e self a (get_service_status self a) w = (r, wa)"
    by (cases "generate_status_json e self a (get_service_status self a) w")
  show ?case
  proof (cases r)
    case (Inl x)
    with Cons.prems(1) g show ?thesis by (simp add: seq_def bnd_def)
  next
    case (Inr u)
    with Cons.prems(1) g have "monitor_services e self pre wa = (Inr (), w1)"
      by (simp add: seq_def bnd_def)
    from Cons.IH[OF this Cons.prems(2)] g Inr show ?thesis by (simp add: seq_def bnd_def)
  qed
qed

lemma main_loop_no_return: "main_loop fuel e monitor cycle w \<noteq> Some (Inr u, w')"
proof (induction fuel arbitrary: cycle w)
  case 0
  then show ?case by simp
next
  case (Suc fuel)
  then show ?case by (auto simp: Let_def split: prod.splits sum.splits)
qed

lemma main_reraises:
  assumes "makedirs e ''/var/tmp/rbcapp1-status'' = Returns ()"
    and "main_loop fuel e monitor0
           0 (w\<lparr>log := log w @ [(INFO, replicate 60 (CHR ''='')),
                                 (INFO, ''rbcapp1 Service Monitor started''),
                                 (INFO, replicate 60 (CHR ''='')),
                                 (INFO, ''Monitor initialized'')]\<rparr>) = Some (Inl ex, w2)"
    and "ex \<noteq> KeyboardInterrupt"
  shows "main fuel e w =
           Some (Inl ex, w2\<lparr>log := log w2 @ [(ERROR, ''Critical error: '' @ str_exc ex)]\<rparr>)"
  using assms
  by (simp add: main_def ServiceMonitor_init_def monitor0_def main_except_def py_defs Let_def)

lemma cycle_stops:
  assumes "map fst (service_status_config monitor) = pre @ s # post"
    and "w0 = w\<lparr>log := log w @ [(INFO, ''Starting monitoring cycle #'' @ dec (cycle + 1))]\<rparr>"
    and "monitor_services e monitor pre w0 = (Inr (), w1)"
    and "generate_status_json e monitor s (get_service_status monitor s) w1 = (Inl ex, w2)"
  shows "monitor_all_services e monitor w0 = (Inl ex, w2) \<and>
         length (opened w2) = length (opened w0) + length pre + 1 \<and>
         main_loop (Suc fuel) e monitor cycle w = Some (Inl ex, w2) \<and>
         (\<exists>msg. ex = OSError msg) \<and>
         fst (main_except ex w2) = Inl ex"
proof -
  have stop: "monitor_services e monitor (pre @ s # post) w0 = (Inl ex, w2)"
    using assms(3,4) by (rule monitor_services_stops)
  then have cyc: "monitor_all_services e monitor w0 = (Inl ex, w2)"
    using assms(1) by (simp add: monitor_all_services_def seq_def bnd_def Let_def)
  from generate_cases[of e monitor s "get_service_status monitor s" w1] assms(4)
  obtain msg where ex: "ex = OSError msg"
    and o: "opened w2 = opened w1 @ [status_file e monitor s (get_service_status monitor s) w1]"
    by auto
  have len: "length (opened w2) = length (opened w0) + length pre + 1"
    using monitor_services_opened[OF assms(3)] o by simp
  have loop: "main_loop (Suc fuel) e monitor cycle w = Some (Inl ex, w2)"
    using cyc assms(2) by (simp add: seq_def bnd_def logger_def Let_def)
  have re: "fst (main_except ex w2) = Inl ex"
    using ex by (simp add: main_except_def py_defs)
  from cyc len loop ex re show ?thesis by blast
qed

text \<open>Cycles that end without an exception are followed by the next one; a cycle that
  fails after them ends the loop and, through the handler of \<open>main\<close>, the process.\<close>

lemma main_loop_Suc:
  "main_loop (Suc fuel) e monitor cycle w =
     (case one_cycle e monitor (cycle + 1) w of
        (Inl ex, w') \<Rightarrow> Some (Inl ex, w')
      | (Inr u, w') \<Rightarrow> main_loop fuel e monitor (cycle + 1) w')"
  by (simp add: one_cycle_def Let_def split: prod.splits sum.splits)

lemma main_loop_after:
  "(\<forall>i<k. one_cycle e monitor (cycle + i + 1) (ws i) = (Inr (), ws (Suc i))) \<Longrightarrow>
   main_loop (k + fuel) e monitor cycle (ws 0) = main_loop fuel e monitor (cycle + k) (ws k)"
proof (induction k arbitrary: cycle ws)
  case 0
  then show ?case by simp
next
  case (Suc k)
  from Suc.prems have first: "one_cycle e monitor (cycle + 1) (ws 0) = (Inr (), ws (Suc 0))"
    by (metis add.right_neutral zero_less_Suc)
  have rest: "\<forall>i<k. one_cycle e monitor ((cycle + 1) + i + 1) ((\<lambda>i. ws (Suc i)) i)
                 = (Inr (), (\<lambda>i. ws (Suc i)) (Suc i))"
  proof (intro allI impI)
    fix i assume "i < k"
    then have "Suc i < Suc k" by simp
    with Suc.prems have "one_cycle e monitor (cycle + Suc i + 1) (ws (Suc i)) = (Inr (), ws (Suc (Suc i)))"
      by blast
    then show "one_cycle e monitor ((cycle + 1) + i + 1) ((\<lambda>i. ws (Suc i)) i)
                 = (Inr (), (\<lambda>i. ws (Suc i)) (Suc i))"
      by (simp add: add.commute add.left_commute)
  qed
  have "main_loop (Suc k + fuel) e monitor cycle (ws 0) = main_loop (k + fuel) e monitor (cycle + 1) (ws (Suc 0))"
    using first by (simp only: add_Suc main_loop_Suc) simp
  also have "\<dots> = main_loop fuel e monitor ((cycle + 1) + k) (ws (Suc k))"
    using Suc.IH[OF rest] by simp
  finally show ?case by (simp add: add.commute add.left_commute)
qed

lemma init_cases:
  assumes "ServiceMonitor_init e w = (Inr monitor, w')"
  shows "makedirs e ''/var/tmp/rbcapp1-status'' = Returns () \<and> monitor = monitor0 \<and>
         w' = w\<lparr>log := log w @ [(INFO, ''Monitor initialized'')]\<rparr>"
  using assms
  by (cases "makedirs e ''/var/tmp/rbcapp1-status''")
     (auto simp: ServiceMonitor_init_def py_defs Let_def monitor0_def)

lemma main_fails:
  assumes init: "ServiceMonitor_init e
             (w\<lparr>log := log w @ [(INFO, replicate 60 (CHR ''='')),
                                 (INFO, ''rbcapp1 Service Monitor started''),
                                 (INFO, replicate 60 (CHR ''=''))]\<rparr>) = (Inr monitor, ws 0)"
    and good: "\<forall>i<k. one_cycle e monitor (i + 1) (ws i) = (Inr (), ws (Suc i))"
    and cfg: "map fst (service_status_config monitor) = pre @ s # post"
    and w0: "w0 = (ws k)\<lparr>log := log (ws k) @ [(INFO, ''Starting monitoring cycle #'' @ dec (k + 1))]\<rparr>"
    and pre: "monitor_services e monitor pre w0 = (Inr (), w1)"
    and fail: "generate_status_json e monitor s (get_service_status monitor s) w1 = (Inl ex, w2)"
  shows "monitor_all_services e monitor w0 = (Inl ex, w2) \<and>
         length (opened w2) = length (opened w0) + length pre + 1 \<and>
         (\<exists>msg. ex = OSError msg) \<and>
         main_loop (Suc fuel) e monitor k (ws k) = Some (Inl ex, w2) \<and>
         main (k + Suc fuel) e w =
           Some (Inl ex, w2\<lparr>log := log w2 @ [(ERROR, ''Critical error: '' @ str_exc ex)]\<rparr>)"
proof -
  from init_cases[OF init]
  have mk: "makedirs e ''/var/tmp/rbcapp1-status'' = Returns ()"
    and m0: "monitor = monitor0"
    and s0: "ws 0 = w\<lparr>log := log w @ [(INFO, replicate 60 (CHR ''='')),
                                 (INFO, ''rbcapp1 Service Monitor started''),
                                 (INFO, replicate 60 (CHR ''='')),
                                 (INFO, ''Monitor initialized'')]\<rparr>"
    by simp_all
  from cycle_stops[OF cfg w0 pre fail, of fuel]
  have cyc: "monitor_all_services e monitor w0 = (Inl ex, w2)"
    and len: "length (opened w2) = length (opened w0) + length pre + 1"
    and loop: "main_loop (Suc fuel) e monitor k (ws k) = Some (Inl ex, w2)"
    and ex: "\<exists>msg. ex = OSError msg"
    by blast+
  from good have "\<forall>i<k. one_cycle e monitor (0 + i + 1) (ws i) = (Inr (), ws (Suc i))"
    by simp
  from main_loop_after[OF this, of "Suc fuel"] loop
  have "main_loop (k + Suc fuel) e monitor 0 (ws 0) = Some (Inl ex, w2)"
    by simp
  then have l0: "main_loop (k + Suc fuel) e monitor0 0
           (w\<lparr>log := log w @ [(INFO, replicate 60 (CHR ''='')),
                                 (INFO, ''rbcapp1 Service Monitor started''),
                                 (INFO, replicate 60 (CHR ''='')),
                                 (INFO, ''Monitor initialized'')]\<rparr>) = Some (Inl ex, w2)"
    using m0 s0 by simp
  from ex have nk: "ex \<noteq> KeyboardInterrupt" by auto
  from main_reraises[OF mk l0 nk] cyc len ex loop show ?thesis by blast
qed

text \<open>The cycle of \<open>monitor0\<close> in \<open>env_up\<close>, from a state in which the clock was not read
  yet: httpd is written, rabbitmq cannot be opened.\<close>

lemma cycle_env_up:
  assumes "ticks w = 0"
  shows "\<exists>w1 w2. monitor_services env_up monitor0 [''httpd''] w = (Inr (), w1) \<and>
           generate_status_json env_up monitor0 ''rabbitmq'' (get_service_status monitor0 ''rabbitmq'') w1
             = (Inl (OSError ''Permission denied''), w2) \<and>
           opened w2 = opened w @
             [''/var/tmp/rbcapp1-status/httpd-UP-20250307T090501.json'',
              ''/var/tmp/rbcapp1-status/rabbitmq-DOWN-20250307T090503.json''] \<and>
           files w2 = AList.update ''/var/tmp/rbcapp1-status/httpd-UP-20250307T090501.json''
                        (status_payload env_up ''httpd'' ''UP'' w) (files w)"
proof -
  have st: "get_service_status monitor0 ''httpd'' = ''UP''"
    "get_service_status monitor0 ''rabbitmq'' = ''DOWN''"
    by (simp_all add: get_service_status_def monitor0_def)
  have p1: "status_file env_up monitor0 ''httpd'' ''UP'' w =
      ''/var/tmp/rbcapp1-status/httpd-UP-20250307T090501.json''"
    using assms by (simp add: status_file_def os_path_join_def monitor0_def strftime_env_up)
  have o1: "open_w env_up (status_file env_up monitor0 ''httpd'' ''UP'' w) = Returns ()"
    unfolding p1 by (simp add: env_up_def)
  obtain w1 where g1: "generate_status_json env_up monitor0 ''httpd'' ''UP'' w = (Inr (), w1)"
    and t1: "ticks w1 = 2"
    and op1: "opened w1 = opened w @ [''/var/tmp/rbcapp1-status/httpd-UP-20250307T090501.json'']"
    and f1: "files w1 = AList.update ''/var/tmp/rbcapp1-status/httpd-UP-20250307T090501.json''
                        (status_payload env_up ''httpd'' ''UP'' w) (files w)"
    using generate_ok[OF o1] assms p1 by simp
  have p2: "status_file env_up monitor0 ''rabbitmq'' ''DOWN'' w1 =
      ''/var/tmp/rbcapp1-status/rabbitmq-DOWN-20250307T090503.json''"
    using t1 by (simp add: status_file_def os_path_join_def monitor0_def strftime_env_up)
  have o2: "open_w env_up (status_file env_up monitor0 ''rabbitmq'' ''DOWN'' w1) = Raises ''Permission denied''"
    unfolding p2 by (simp add: env_up_def)
  obtain w2 where g2: "generate_status_json env_up monitor0 ''rabbitmq'' ''DOWN'' w1
       = (Inl (OSError ''Permission denied''), w2)"
    and op2: "opened w2 = opened w1 @ [''/var/tmp/rbcapp1-status/rabbitmq-DOWN-20250307T090503.json'']"
    and f2: "files w2 = files w1"
    using generate_fail[OF o2] p2 by simp
  have m1: "monitor_services env_up monitor0 [''httpd''] w = (Inr (), w1)"
    using g1 st by (simp add: seq_def bnd_def ret_def)
  from m1 g2 op1 op2 f1 f2 st show ?thesis by simp
qed

lemma monitor_services_files:
  assumes "\<And>n. valid_datetime (clock e n)"
  shows "(p, doc) \<in> set (files (snd (monitor_services e self svcs w))) \<Longrightarrow>
         (p, doc) \<notin> set (files w) \<Longrightarrow> carries_both_timestamps doc"
proof (induction svcs arbitrary: w)
  case Nil
  then show ?case by (simp add: ret_def)
next
  case (Cons s rest)
  let ?st = "get_service_status self s"
  from generate_cases[of e self s ?st w] show ?case
  proof
    assume "\<exists>w1. generate_status_json e self s ?st w = (Inr (), w1) \<and>
          opened w1 = opened w @ [status_file e self s ?st w] \<and>
          files w1 = AList.update (status_file e self s ?st w) (status_payload e s ?st w) (files w)"
    then obtain w1 where g: "generate_status_json e self s ?st w = (Inr (), w1)"
      and f: "files w1 = AList.update (status_file e self s ?st w) (status_payload e s ?st w) (files w)"
      by blast
    from Cons.prems(1) g have in': "(p, doc) \<in> set (files (snd (monitor_services e self rest w1)))"
      by (simp add: seq_def bnd_def)
    show ?thesis
    proof (cases "(p, doc) \<in> set (files w1)")
      case False
      from Cons.IH[OF in' False] show ?thesis .
    next
      case True
      with f set_update_cases[of p doc "status_file e self s ?st w" "status_payload e s ?st w" "files w"]
        Cons.prems(2)
      have "doc = status_payload e s ?st w" by auto
      then show ?thesis using stamped_payload[of e w s ?st] assms by simp
    qed
  next
    assume "\<exists>msg w1. generate_status_json e self s ?st w = (Inl (OSError msg), w1) \<and>
          opened w1 = opened w @ [status_file e self s ?st w] \<and> files w1 = files w"
    with Cons.prems show ?thesis by (auto simp: seq_def bnd_def)
  qed
qed

lemma monitor_all_files:
  "files (snd (monitor_all_services e self w)) =
   files (snd (monitor_services e self (map fst (service_status_config self)) w))"
  by (cases "monitor_services e self (map fst (service_status_config self)) w")
     (auto simp: monitor_all_services_def seq_def bnd_def logger_def Let_def split: sum.splits)

section \<open>The claims about submission, the probe and the monitor\<close>

text \<open>
  The order of the checks of \<open>POST /add\<close> for a payload that is a JSON object. A payload
  without one of the three required fields is refused with 400 and the list of the
  missing fields, whatever the service name and the store are. A payload with the
  three fields whose \<open>service_name\<close> is not a registered name is refused with 400 and
  the list of the supported services, whatever the store is. Only a payload that passed
  both checks reaches the probe, and with the store unreachable it is refused with 503.
  In the first two cases the call list of the store is unchanged (not even a ping), as
  it is when \<open>GET /healthcheck/{service}\<close> refuses a name that is not registered.
\<close>

lemma validation_order:
  assumes "is_json req" and "get_json req = JObj fs"
  shows "(\<not> (\<forall>f \<in> set required_fields. f \<in> fst ` set fs) \<longrightarrow>
            (\<exists>ms w'. ms \<noteq> [] \<and>
               add_status e req w =
                 (Inr (JObj [(''error'', JStr (''Missing required fields: '' @ py_str e (JArr (map JStr ms)))),
                             (''required_fields'', JArr (map JStr required_fields))], 400), w') \<and>
               store_calls w' = store_calls w)) \<and>
         ((\<forall>f \<in> set required_fields. f \<in> fst ` set fs) \<and>
          (\<forall>name \<in> set SUPPORTED_SERVICES. map_of fs ''service_name'' \<noteq> Some (JStr name)) \<longrightarrow>
            (\<exists>v w'. add_status e req w =
                 (Inr (JObj [(''error'', JStr (''Unknown service: '' @ py_str e v)),
                             (''supported_services'', JArr (map JStr SUPPORTED_SERVICES))], 400), w') \<and>
               store_calls w' = store_calls w)) \<and>
         ((\<forall>f \<in> set required_fields. f \<in> fst ` set fs) \<and>
          (\<exists>name \<in> set SUPPORTED_SERVICES. map_of fs ''service_name'' = Some (JStr name)) \<and>
          fst (is_elasticsearch_healthy e w) = Inr False \<longrightarrow>
            (\<exists>w'. add_status e req w =
                 (Inr (JObj [(''error'', JStr ''Elasticsearch unavailable''),
                             (''status'', JStr ''FAILED'')], 503), w') \<and>
               filter is_read_or_write (store_calls w') = filter is_read_or_write (store_calls w))) \<and>
         (s \<notin> set SUPPORTED_SERVICES \<longrightarrow>
            (\<exists>w'. healthcheck_service e req' s w =
                 (Inr (JObj [(''error'', JStr (''Unknown service: '' @ s)),
                             (''available_services'', JArr (map JStr SUPPORTED_SERVICES))], 400), w') \<and>
               store_calls w' = store_calls w))"
proof (intro conjI impI)
  assume a: "\<not> (\<forall>f \<in> set required_fields. f \<in> fst ` set fs)"
  let ?ms = "filter (\<lambda>f. f \<notin> fst ` set fs) required_fields"
  from add_status_malformed[OF assms a, of e w] malformed_missing[OF a]
  show "\<exists>ms w'. ms \<noteq> [] \<and>
               add_status e req w =
                 (Inr (JObj [(''error'', JStr (''Missing required fields: '' @ py_str e (JArr (map JStr ms)))),
                             (''required_fields'', JArr (map JStr required_fields))], 400), w') \<and>
               store_calls w' = store_calls w"
    by (intro exI[of _ ?ms]) simp
next
  assume "(\<forall>f \<in> set required_fields. f \<in> fst ` set fs) \<and>
          (\<forall>name \<in> set SUPPORTED_SERVICES. map_of fs ''service_name'' \<noteq> Some (JStr name))"
  then have a: "\<forall>f \<in> set required_fields. f \<in> fst ` set fs"
    and b: "\<forall>name \<in> set SUPPORTED_SERVICES. map_of fs ''service_name'' \<noteq> Some (JStr name)"
    by blast+
  from add_status_unknown[OF assms a b, of e w]
  show "\<exists>v w'. add_status e req w =
                 (Inr (JObj [(''error'', JStr (''Unknown service: '' @ py_str e v)),
                             (''supported_services'', JArr (map JStr SUPPORTED_SERVICES))], 400), w') \<and>
               store_calls w' = store_calls w"
    by auto
next
  assume "(\<forall>f \<in> set required_fields. f \<in> fst ` set fs) \<and>
          (\<exists>name \<in> set SUPPORTED_SERVICES. map_of fs ''service_name'' = Some (JStr name)) \<and>
          fst (is_elasticsearch_healthy e w) = Inr False"
  then obtain name where a: "\<forall>f \<in> set required_fields. f \<in> fst ` set fs"
    and n: "name \<in> set SUPPORTED_SERVICES" and m: "map_of fs ''service_name'' = Some (JStr name)"
    and h: "fst (is_elasticsearch_healthy e w) = Inr False"
    by blast
  from add_status_down[OF assms a m n h]
  show "\<exists>w'. add_status e req w =
                 (Inr (JObj [(''error'', JStr ''Elasticsearch unavailable''),
                             (''status'', JStr ''FAILED'')], 503), w') \<and>
               filter is_read_or_write (store_calls w') = filter is_read_or_write (store_calls w)"
    using no_read_or_write by blast
next
  assume "s \<notin> set SUPPORTED_SERVICES"
  from healthcheck_service_unknown[OF this, of e req' w]
  show "\<exists>w'. healthcheck_service e req' s w =
                 (Inr (JObj [(''error'', JStr (''Unknown service: '' @ s)),
                             (''available_services'', JArr (map JStr SUPPORTED_SERVICES))], 400), w') \<and>
               store_calls w' = store_calls w"
    by simp
qed

lemma validation_order_witness:
  "(\<exists>ms w'. ms \<noteq> [] \<and>
      add_status env_down (post_req (JObj payload_partial)) world0 =
        (Inr (JObj [(''error'', JStr (''Missing required fields: '' @ py_str env_down (JArr (map JStr ms)))),
                    (''required_fields'', JArr (map JStr required_fields))], 400), w') \<and>
      store_calls w' = store_calls world0) \<and>
   (\<exists>v w'. add_status env_down (post_req (JObj payload_ftp)) world0 =
        (Inr (JObj [(''error'', JStr (''Unknown service: '' @ py_str env_down v)),
                    (''supported_services'', JArr (map JStr SUPPORTED_SERVICES))], 400), w') \<and>
      store_calls w' = store_calls world0) \<and>
   (\<exists>w'. add_status env_down (post_req (JObj payload_httpd)) world0 =
        (Inr (JObj [(''error'', JStr ''Elasticsearch unavailable''),
                    (''status'', JStr ''FAILED'')], 503), w') \<and>
      filter is_read_or_write (store_calls w') = filter is_read_or_write (store_calls world0)) \<and>
   (\<exists>w'. healthcheck_service env_down (get_req ''/healthcheck/ftp'') ''ftp'' world0 =
        (Inr (JObj [(''error'', JStr (''Unknown service: '' @ ''ftp'')),
                    (''available_services'', JArr (map JStr SUPPORTED_SERVICES))], 400), w') \<and>
      store_calls w' = store_calls world0)"
proof -
  have j: "is_json (post_req b)" and d: "get_json (post_req b) = b" for b
    by (simp_all add: post_req_def)
  have a1: "\<not> (\<forall>f \<in> set required_fields. f \<in> fst ` set payload_partial)"
    by (simp add: required_fields_def payload_partial_def)
  have a2: "(\<forall>f \<in> set required_fields. f \<in> fst ` set payload_ftp) \<and>
          (\<forall>name \<in> set SUPPORTED_SERVICES. map_of payload_ftp ''service_name'' \<noteq> Some (JStr name))"
    by (simp add: required_fields_def payload_ftp_def SUPPORTED_SERVICES_def)
  have a3: "(\<forall>f \<in> set required_fields. f \<in> fst ` set payload_httpd) \<and>
          (\<exists>name \<in> set SUPPORTED_SERVICES. map_of payload_httpd ''service_name'' = Some (JStr name)) \<and>
          fst (is_elasticsearch_healthy env_down world0) = Inr False"
    using unhealthy_env_down by (simp add: required_fields_def payload_httpd_def SUPPORTED_SERVICES_def)
  have a4: "''ftp'' \<notin> set SUPPORTED_SERVICES"
    by (simp add: SUPPORTED_SERVICES_def)
  from validation_order[OF j d, of payload_partial env_down world0 "''ftp''" "get_req ''/healthcheck/ftp''"]
    validation_order[OF j d, of payload_ftp env_down world0 "''ftp''" "get_req ''/healthcheck/ftp''"]
    validation_order[OF j d, of payload_httpd env_down world0 "''ftp''" "get_req ''/healthcheck/ftp''"]
    a1 a2 a3 a4
  show ?thesis by blast
qed

text \<open>
  C3. Every submitted payload that lacks a required field is to be refused as
  malformed, with 400. The handler does so for a JSON object only. A JSON body that is
  a number or \<open>null\<close> has no field at all, and for it the test \<open>field not in data\<close>
  raises a \<open>TypeError\<close>; a JSON list that holds the three names passes that test, and
  \<open>data.get\<close> raises an \<open>AttributeError\<close>. Both are raised outside the \<open>try\<close> of the
  handler, so the handler returns no response of its own and the request is answered
  by \<open>server_error\<close> with 500; the store is not called.
\<close>

theorem submit_non_object_raises:
  "fst (add_status env_up (post_req (JInt 5)) world0) =
     Inl (TypeError (''argument of type '' @ quoted ''int'' @ '' is not iterable'')) \<and>
   store_calls (snd (add_status env_up (post_req (JInt 5)) world0)) = [] \<and>
   fst (add_status env_up (post_req JNull) world0) =
     Inl (TypeError (''argument of type '' @ quoted ''NoneType'' @ '' is not iterable'')) \<and>
   fst (add_status env_up
          (post_req (JArr [JStr ''service_name'', JStr ''service_status'', JStr ''host_name'']))
          world0) =
     Inl (AttributeError (quoted ''list'' @ '' object has no attribute '' @ quoted ''get''))"
  by (simp add: add_status_def py_defs Let_def required_fields_def post_req_def world0_def)

text \<open>
  C4, as the specification states it: a failure to persist one service does not keep
  the cycle from attempting the remaining services, and the cycle does not fail the
  process. The code does neither: in \<open>env_up\<close> the file of rabbitmq cannot be opened,
  \<open>monitor_all_services\<close> raises the \<open>OSError\<close>, only the files of httpd and rabbitmq
  were opened (postgresql, the third service, was not attempted), and \<open>main\<close> ends by
  raising the same exception.
\<close>

theorem cycle_failure_counterexample:
  "fst (monitor_all_services env_up monitor0 world0) = Inl (OSError ''Permission denied'') \<and>
   opened (snd (monitor_all_services env_up monitor0 world0)) =
     [''/var/tmp/rbcapp1-status/httpd-UP-20250307T090501.json'',
      ''/var/tmp/rbcapp1-status/rabbitmq-DOWN-20250307T090503.json''] \<and>
   map fst (service_status_config monitor0) = [''httpd'', ''rabbitmq'', ''postgresql''] \<and>
   map_option fst (main 1 env_up world0) = Some (Inl (OSError ''Permission denied''))"
proof -
  have cfg: "map fst (service_status_config monitor0) = [''httpd''] @ ''rabbitmq'' # [''postgresql'']"
    by (simp add: monitor0_def)
  have t0: "ticks world0 = 0" and o0: "opened world0 = []" by (simp_all add: world0_def)
  obtain w1 w2 where m: "monitor_services env_up monitor0 [''httpd''] world0 = (Inr (), w1)"
    and g: "generate_status_json env_up monitor0 ''rabbitmq'' (get_service_status monitor0 ''rabbitmq'') w1
             = (Inl (OSError ''Permission denied''), w2)"
    and op: "opened w2 = opened world0 @
             [''/var/tmp/rbcapp1-status/httpd-UP-20250307T090501.json'',
              ''/var/tmp/rbcapp1-status/rabbitmq-DOWN-20250307T090503.json'']"
    using cycle_env_up[OF t0] by blast
  have "monitor_services env_up monitor0 ([''httpd''] @ ''rabbitmq'' # [''postgresql'']) world0
          = (Inl (OSError ''Permission denied''), w2)"
    using m g by (rule monitor_services_stops)
  then have cyc: "monitor_all_services env_up monitor0 world0 = (Inl (OSError ''Permission denied''), w2)"
    using cfg by (simp add: monitor_all_services_def seq_def bnd_def Let_def)
  let ?wi = "world0\<lparr>log := log world0 @ [(INFO, replicate 60 (CHR ''='')),
                                 (INFO, ''rbcapp1 Service Monitor started''),
                                 (INFO, replicate 60 (CHR ''='')),
                                 (INFO, ''Monitor initialized'')]\<rparr>"
  let ?ws = "?wi\<lparr>log := log ?wi @ [(INFO, ''Starting monitoring cycle #'' @ dec (0 + 1))]\<rparr>"
  have ts: "ticks ?ws = 0" by (simp add: world0_def)
  obtain v1 v2 where m': "monitor_services env_up monitor0 [''httpd''] ?ws = (Inr (), v1)"
    and g': "generate_status_json env_up monitor0 ''rabbitmq'' (get_service_status monitor0 ''rabbitmq'') v1
             = (Inl (OSError ''Permission denied''), v2)"
    using cycle_env_up[OF ts] by blast
  have loop: "main_loop (Suc 0) env_up monitor0 0 ?wi = Some (Inl (OSError ''Permission denied''), v2)"
    using cycle_stops[OF cfg refl m' g', of 0] by blast
  have mk: "makedirs env_up ''/var/tmp/rbcapp1-status'' = Returns ()"
    by (simp add: env_up_def)
  have "main (Suc 0) env_up world0 =
          Some (Inl (OSError ''Permission denied''),
                v2\<lparr>log := log v2 @ [(ERROR, ''Critical error: '' @ str_exc (OSError ''Permission denied''))]\<rparr>)"
    using main_reraises[OF mk loop] by simp
  then have mn: "map_option fst (main 1 env_up world0) = Some (Inl (OSError ''Permission denied''))"
    by simp
  from cyc op o0 mn show ?thesis by (simp add: monitor0_def)
qed

text \<open>
  C4, amended. \<open>main\<close> has built its monitor and \<open>k\<close> cycles have ended without an
  exception. In the next cycle the services are attempted in the order of the
  configuration until the first failure: when the services before \<open>s\<close> were persisted
  and persisting \<open>s\<close> raises, \<open>monitor_all_services\<close> raises that exception in the state
  right after the failed attempt, so that exactly the services up to \<open>s\<close> were
  attempted and none after it. The exception is an \<open>OSError\<close>; the loop of \<open>main\<close> ends
  in that cycle with it, and \<open>main\<close> logs it as a critical error at the level \<open>ERROR\<close>
  and raises it again: the process fails.
\<close>

theorem cycle_stops_at_first_failure:
  assumes init: "ServiceMonitor_init e
             (w\<lparr>log := log w @ [(INFO, replicate 60 (CHR ''='')),
                                 (INFO, ''rbcapp1 Service Monitor started''),
                                 (INFO, replicate 60 (CHR ''=''))]\<rparr>) = (Inr monitor, ws 0)"
    and good: "\<forall>i<k. one_cycle e monitor (i + 1) (ws i) = (Inr (), ws (Suc i))"
    and cfg: "map fst (service_status_config monitor) = pre @ s # post"
    and w0: "w0 = (ws k)\<lparr>log := log (ws k) @ [(INFO, ''Starting monitoring cycle #'' @ dec (k + 1))]\<rparr>"
    and pre: "monitor_services e monitor pre w0 = (Inr (), w1)"
    and fail: "generate_status_json e monitor s (get_service_status monitor s) w1 = (Inl ex, w2)"
  shows "monitor_all_services e monitor w0 = (Inl ex, w2) \<and>
         length (opened w2) = length (opened w0) + length pre + 1 \<and>
         (\<exists>msg. ex = OSError msg) \<and>
         main_loop (Suc fuel) e monitor k (ws k) = Some (Inl ex, w2) \<and>
         main (k + Suc fuel) e w =
           Some (Inl ex, w2\<lparr>log := log w2 @ [(ERROR, ''Critical error: '' @ str_exc ex)]\<rparr>)"
  using main_fails[OF assms] .

theorem cycle_stops_at_first_failure_witness:
  "\<exists>w2. monitor_all_services env_up monitor0
            (world0\<lparr>log := [(INFO, replicate 60 (CHR ''='')),
                             (INFO, ''rbcapp1 Service Monitor started''),
                             (INFO, replicate 60 (CHR ''='')),
                             (INFO, ''Monitor initialized''),
                             (INFO, ''Starting monitoring cycle #'' @ dec (0 + 1))]\<rparr>)
            = (Inl (OSError ''Permission denied''), w2) \<and>
          length (opened w2) = 2 \<and>
          main (Suc 0) env_up world0 =
            Some (Inl (OSError ''Permission denied''),
                  w2\<lparr>log := log w2 @ [(ERROR, ''Critical error: Permission denied'')]\<rparr>)"
proof -
  let ?wb = "world0\<lparr>log := log world0 @ [(INFO, replicate 60 (CHR ''='')),
                                 (INFO, ''rbcapp1 Service Monitor started''),
                                 (INFO, replicate 60 (CHR ''=''))]\<rparr>"
  let ?wi = "?wb\<lparr>log := log ?wb @ [(INFO, ''Monitor initialized'')]\<rparr>"
  let ?w0 = "?wi\<lparr>log := log ?wi @ [(INFO, ''Starting monitoring cycle #'' @ dec (0 + 1))]\<rparr>"
  have init: "ServiceMonitor_init env_up ?wb = (Inr monitor0, (\<lambda>i. ?wi) 0)"
    by (simp add: ServiceMonitor_init_def py_defs Let_def monitor0_def env_up_def)
  have good: "\<forall>i<0. one_cycle env_up monitor0 (i + 1) ((\<lambda>i. ?wi) i) = (Inr (), (\<lambda>i. ?wi) (Suc i))"
    by simp
  have cfg: "map fst (service_status_config monitor0) = [''httpd''] @ ''rabbitmq'' # [''postgresql'']"
    by (simp add: monitor0_def)
  have w0: "?w0 = ((\<lambda>i. ?wi) 0)\<lparr>log := log ((\<lambda>i. ?wi) 0) @ [(INFO, ''Starting monitoring cycle #'' @ dec (0 + 1))]\<rparr>"
    by simp
  have t: "ticks ?w0 = 0" and o: "opened ?w0 = []" by (simp_all add: world0_def)
  obtain w1 w2 where m: "monitor_services env_up monitor0 [''httpd''] ?w0 = (Inr (), w1)"
    and g: "generate_status_json env_up monitor0 ''rabbitmq'' (get_service_status monitor0 ''rabbitmq'') w1
             = (Inl (OSError ''Permission denied''), w2)"
    using cycle_env_up[OF t] by blast
  have l: "log ?w0 = [(INFO, replicate 60 (CHR ''='')),
                             (INFO, ''rbcapp1 Service Monitor started''),
                             (INFO, replicate 60 (CHR ''='')),
                             (INFO, ''Monitor initialized''),
                             (INFO, ''Starting monitoring cycle #'' @ dec (0 + 1))]"
    by (simp add: world0_def)
  from cycle_stops_at_first_failure[OF init good cfg w0 m g, of 0] o l
  show ?thesis by (auto simp: world0_def)
qed

text \<open>
  C5, as the specification states it: a time stamp that the payload carries is
  preserved. The code does not preserve it: the payload \<open>payload_stamped\<close> carries the
  time stamp \<open>1999-12-31T23:59:59Z\<close>, the submission is accepted with 201, and both the
  answer and the document written to the store carry the time of the clock instead.
\<close>

theorem submit_overwrites_timestamp_counterexample:
  "getitem (JObj payload_stamped) ''timestamp'' = Inr (JStr ''1999-12-31T23:59:59Z'') \<and>
   fst (add_status env_up (post_req (JObj payload_stamped)) world0) =
     Inr (JObj [(''message'', JStr ''Status for httpd successfully added to Elasticsearch''),
                (''service'', JStr ''httpd''), (''status'', JStr ''UP''),
                (''host_name'', JStr ''h1''),
                (''timestamp'', JStr ''2025-03-07T09:05:00.000123Z''),
                (''elasticsearch_id'', JStr ''abc'')], 201) \<and>
   store_calls (snd (add_status env_up (post_req (JObj payload_stamped)) world0)) =
     [Ping, Index ''rbcapp1-httpd'' stamped_httpd]"
proof -
  have j: "is_json (post_req (JObj payload_stamped))"
    and d: "get_json (post_req (JObj payload_stamped)) = JObj payload_stamped"
    by (simp_all add: post_req_def)
  have a: "\<forall>f \<in> set required_fields. f \<in> fst ` set payload_stamped"
    by (simp add: required_fields_def payload_stamped_def payload_httpd_def)
  have n: "map_of payload_stamped ''service_name'' = Some (JStr ''httpd'')"
    by (simp add: payload_stamped_def payload_httpd_def)
  have m: "''httpd'' \<in> set SUPPORTED_SERVICES" by (simp add: SUPPORTED_SERVICES_def)
  have ts: "JStr ''2025-03-07T09:05:00.000123Z'' = JStr (isoformat (clock env_up (ticks world0)) @ ''Z'')"
    using iso_time0 by (simp add: world0_def)
  have doc: "stamped_httpd = JObj (AList.update ''timestamp'' (JStr ''2025-03-07T09:05:00.000123Z'')
        (AList.update ''@timestamp'' (JStr ''2025-03-07T09:05:00.000123Z'') payload_stamped))"
    by (simp add: stamped_httpd_def payload_stamped_def payload_httpd_def)
  have i: "index env_up (''rbcapp1-'' @ ''httpd'') stamped_httpd = Returns (JObj [(''_id'', JStr ''abc'')])"
    by (simp add: env_up_def)
  from add_status_accepted[OF j d a n m healthy_env_up ts doc i]
  obtain w' where r: "add_status env_up (post_req (JObj payload_stamped)) world0 =
      (Inr (JObj [(''message'', JStr (''Status for '' @ ''httpd'' @ '' successfully added to Elasticsearch'')),
                  (''service'', JStr ''httpd''),
                  (''status'', case map_of payload_stamped ''service_status'' of Some v \<Rightarrow> v | None \<Rightarrow> JNull),
                  (''host_name'', case map_of payload_stamped ''host_name'' of Some v \<Rightarrow> v | None \<Rightarrow> JNull),
                  (''timestamp'', JStr ''2025-03-07T09:05:00.000123Z''),
                  (''elasticsearch_id'', case map_of [(''_id'', JStr ''abc'')] ''_id'' of Some v \<Rightarrow> v | None \<Rightarrow> JNull)],
            201), w')"
    and c: "store_calls w' = store_calls world0 @ [Ping, Index (''rbcapp1-'' @ ''httpd'') stamped_httpd]"
    by blast
  have g: "getitem (JObj payload_stamped) ''timestamp'' = Inr (JStr ''1999-12-31T23:59:59Z'')"
    by (simp add: payload_stamped_def payload_httpd_def)
  from r c g show ?thesis
    by (simp add: payload_stamped_def payload_httpd_def world0_def)
qed

text \<open>
  C5, amended. For every valid accepted submission (a JSON object with the three
  required fields and a registered service name, a healthy probe, a write that returns)
  \<open>POST /add\<close> sets both \<open>@timestamp\<close> and \<open>timestamp\<close> to the current UTC time, whether
  or not the payload carried either of them, and leaves every other field as it was; it
  writes that document to the index \<open>rbcapp1-{service_name}\<close> and answers 201 with the
  service, the status, the host name, the new time stamp and the identifier the store
  assigned.
\<close>

theorem submit_stamps_current_time:
  assumes "is_json req" and "get_json req = JObj fs"
    and "\<forall>f \<in> set required_fields. f \<in> fst ` set fs"
    and "map_of fs ''service_name'' = Some (JStr name)" and "name \<in> set SUPPORTED_SERVICES"
    and "fst (is_elasticsearch_healthy e w) = Inr True"
    and "ts = JStr (isoformat (clock e (ticks w)) @ ''Z'')"
    and "doc = JObj (AList.update ''timestamp'' ts (AList.update ''@timestamp'' ts fs))"
    and "index e (''rbcapp1-'' @ name) doc = Returns (JObj r)"
  shows "(\<exists>w'. add_status e req w =
           (Inr (JObj [(''message'', JStr (''Status for '' @ name @ '' successfully added to Elasticsearch'')),
                       (''service'', JStr name),
                       (''status'', case map_of fs ''service_status'' of Some v \<Rightarrow> v | None \<Rightarrow> JNull),
                       (''host_name'', case map_of fs ''host_name'' of Some v \<Rightarrow> v | None \<Rightarrow> JNull),
                       (''timestamp'', ts),
                       (''elasticsearch_id'', case map_of r ''_id'' of Some v \<Rightarrow> v | None \<Rightarrow> JNull)], 201), w') \<and>
           store_calls w' = store_calls w @ [Ping, Index (''rbcapp1-'' @ name) doc]) \<and>
         getitem doc ''timestamp'' = Inr ts \<and> getitem doc ''@timestamp'' = Inr ts \<and>
         (\<forall>k. k \<noteq> ''timestamp'' \<and> k \<noteq> ''@timestamp'' \<longrightarrow> getitem doc k = getitem (JObj fs) k)"
proof -
  have f: "getitem doc ''timestamp'' = Inr ts \<and> getitem doc ''@timestamp'' = Inr ts \<and>
         (\<forall>k. k \<noteq> ''timestamp'' \<and> k \<noteq> ''@timestamp'' \<longrightarrow> getitem doc k = getitem (JObj fs) k)"
    using assms(8) by (simp add: update_conv')
  from add_status_accepted[OF assms] f show ?thesis by blast
qed

theorem submit_stamps_current_time_witness:
  "getitem (JObj payload_stamped) ''timestamp'' = Inr (JStr ''1999-12-31T23:59:59Z'') \<and>
   (\<exists>w'. add_status env_up (post_req (JObj payload_stamped)) world0 =
      (Inr (JObj [(''message'', JStr (''Status for '' @ ''httpd'' @ '' successfully added to Elasticsearch'')),
                  (''service'', JStr ''httpd''),
                  (''status'', JStr ''UP''),
                  (''host_name'', JStr ''h1''),
                  (''timestamp'', JStr ''2025-03-07T09:05:00.000123Z''),
                  (''elasticsearch_id'', JStr ''abc'')], 201), w') \<and>
      store_calls w' = store_calls world0 @ [Ping, Index (''rbcapp1-'' @ ''httpd'') stamped_httpd]) \<and>
   getitem stamped_httpd ''timestamp'' = Inr (JStr ''2025-03-07T09:05:00.000123Z'') \<and>
   getitem stamped_httpd ''@timestamp'' = Inr (JStr ''2025-03-07T09:05:00.000123Z'')"
proof -
  have j: "is_json (post_req (JObj payload_stamped))"
    and d: "get_json (post_req (JObj payload_stamped)) = JObj payload_stamped"
    by (simp_all add: post_req_def)
  have a: "\<forall>f \<in> set required_fields. f \<in> fst ` set payload_stamped"
    by (simp add: required_fields_def payload_stamped_def payload_httpd_def)
  have n: "map_of payload_stamped ''service_name'' = Some (JStr ''httpd'')"
    by (simp add: payload_stamped_def payload_httpd_def)
  have m: "''httpd'' \<in> set SUPPORTED_SERVICES" by (simp add: SUPPORTED_SERVICES_def)
  have ts: "JStr ''2025-03-07T09:05:00.000123Z'' = JStr (isoformat (clock env_up (ticks world0)) @ ''Z'')"
    using iso_time0 by (simp add: world0_def)
  have doc: "stamped_httpd = JObj (AList.update ''timestamp'' (JStr ''2025-03-07T09:05:00.000123Z'')
        (AList.update ''@timestamp'' (JStr ''2025-03-07T09:05:00.000123Z'') payload_stamped))"
    by (simp add: stamped_httpd_def payload_stamped_def payload_httpd_def)
  have i: "index env_up (''rbcapp1-'' @ ''httpd'') stamped_httpd = Returns (JObj [(''_id'', JStr ''abc'')])"
    by (simp add: env_up_def)
  have g: "getitem (JObj payload_stamped) ''timestamp'' = Inr (JStr ''1999-12-31T23:59:59Z'')"
    by (simp add: payload_stamped_def payload_httpd_def)
  have sv: "(case map_of payload_stamped ''service_status'' of Some v \<Rightarrow> v | None \<Rightarrow> JNull) = JStr ''UP''"
    "(case map_of payload_stamped ''host_name'' of Some v \<Rightarrow> v | None \<Rightarrow> JNull) = JStr ''h1''"
    "(case map_of [(''_id'', JStr ''abc'')] ''_id'' of Some v \<Rightarrow> v | None \<Rightarrow> JNull) = JStr ''abc''"
    by (simp_all add: payload_stamped_def payload_httpd_def)
  from submit_stamps_current_time[OF j d a n m healthy_env_up ts doc i] g
  show ?thesis unfolding sv by blast
qed

text \<open>
  C6. When the health probe answers that the store is unreachable, \<open>GET /healthcheck\<close>,
  \<open>GET /healthcheck/{service}\<close> for a registered service and \<open>POST /add\<close> for a valid
  payload each answer 503, and the request makes no search and no write: the calls
  that read or write the store are the ones made before the request.
\<close>

theorem unreachable_fails_fast:
  assumes "fst (is_elasticsearch_healthy e w) = Inr False"
  shows "(\<exists>w'. healthcheck e req w =
            (Inr (JObj [(''error'', JStr ''Elasticsearch unavailable''),
                        (''status'', JStr ''UNKNOWN'')], 503), w') \<and>
            filter is_read_or_write (store_calls w') = filter is_read_or_write (store_calls w)) \<and>
         (s \<in> set SUPPORTED_SERVICES \<longrightarrow>
            (\<exists>w'. healthcheck_service e req1 s w =
               (Inr (JObj [(''service'', JStr s),
                           (''status'', JStr ''UNKNOWN''),
                           (''reason'', JStr ''Elasticsearch unavailable'')], 503), w') \<and>
               filter is_read_or_write (store_calls w') = filter is_read_or_write (store_calls w))) \<and>
         (is_json req2 \<and> get_json req2 = JObj fs \<and>
          (\<forall>f \<in> set required_fields. f \<in> fst ` set fs) \<and>
          map_of fs ''service_name'' = Some (JStr name) \<and> name \<in> set SUPPORTED_SERVICES \<longrightarrow>
            (\<exists>w'. add_status e req2 w =
               (Inr (JObj [(''error'', JStr ''Elasticsearch unavailable''),
                           (''status'', JStr ''FAILED'')], 503), w') \<and>
               filter is_read_or_write (store_calls w') = filter is_read_or_write (store_calls w)))"
proof (intro conjI impI)
  from healthcheck_down[OF assms, of req]
  show "\<exists>w'. healthcheck e req w =
            (Inr (JObj [(''error'', JStr ''Elasticsearch unavailable''),
                        (''status'', JStr ''UNKNOWN'')], 503), w') \<and>
            filter is_read_or_write (store_calls w') = filter is_read_or_write (store_calls w)"
    using no_read_or_write by blast
next
  assume "s \<in> set SUPPORTED_SERVICES"
  from healthcheck_service_down[OF this assms, of req1]
  show "\<exists>w'. healthcheck_service e req1 s w =
               (Inr (JObj [(''service'', JStr s),
                           (''status'', JStr ''UNKNOWN''),
                           (''reason'', JStr ''Elasticsearch unavailable'')], 503), w') \<and>
               filter is_read_or_write (store_calls w') = filter is_read_or_write (store_calls w)"
    using no_read_or_write by blast
next
  assume "is_json req2 \<and> get_json req2 = JObj fs \<and>
          (\<forall>f \<in> set required_fields. f \<in> fst ` set fs) \<and>
          map_of fs ''service_name'' = Some (JStr name) \<and> name \<in> set SUPPORTED_SERVICES"
  then have j: "is_json req2" and d: "get_json req2 = JObj fs"
    and a: "\<forall>f \<in> set required_fields. f \<in> fst ` set fs"
    and m: "map_of fs ''service_name'' = Some (JStr name)" and n: "name \<in> set SUPPORTED_SERVICES"
    by blast+
  from add_status_down[OF j d a m n assms]
  show "\<exists>w'. add_status e req2 w =
               (Inr (JObj [(''error'', JStr ''Elasticsearch unavailable''),
                           (''status'', JStr ''FAILED'')], 503), w') \<and>
               filter is_read_or_write (store_calls w') = filter is_read_or_write (store_calls w)"
    using no_read_or_write by blast
qed

theorem unreachable_fails_fast_witness:
  "fst (is_elasticsearch_healthy env_down world0) = Inr False \<and>
   (\<exists>w'. healthcheck env_down (get_req ''/healthcheck'') world0 =
            (Inr (JObj [(''error'', JStr ''Elasticsearch unavailable''),
                        (''status'', JStr ''UNKNOWN'')], 503), w') \<and>
          filter is_read_or_write (store_calls w') = filter is_read_or_write (store_calls world0)) \<and>
   (\<exists>w'. healthcheck_service env_down (get_req ''/healthcheck/httpd'') ''httpd'' world0 =
            (Inr (JObj [(''service'', JStr ''httpd''),
                        (''status'', JStr ''UNKNOWN''),
                        (''reason'', JStr ''Elasticsearch unavailable'')], 503), w') \<and>
          filter is_read_or_write (store_calls w') = filter is_read_or_write (store_calls world0)) \<and>
   (\<exists>w'. add_status env_down (post_req (JObj payload_httpd)) world0 =
            (Inr (JObj [(''error'', JStr ''Elasticsearch unavailable''),
                        (''status'', JStr ''FAILED'')], 503), w') \<and>
          filter is_read_or_write (store_calls w') = filter is_read_or_write (store_calls world0))"
proof -
  have m: "''httpd'' \<in> set SUPPORTED_SERVICES" by (simp add: SUPPORTED_SERVICES_def)
  have p: "is_json (post_req (JObj payload_httpd)) \<and>
          get_json (post_req (JObj payload_httpd)) = JObj payload_httpd \<and>
          (\<forall>f \<in> set required_fields. f \<in> fst ` set payload_httpd) \<and>
          map_of payload_httpd ''service_name'' = Some (JStr ''httpd'') \<and>
          ''httpd'' \<in> set SUPPORTED_SERVICES"
    by (simp add: post_req_def required_fields_def payload_httpd_def SUPPORTED_SERVICES_def)
  from unreachable_fails_fast[OF unhealthy_env_down, of "get_req ''/healthcheck''" "''httpd''"
      "get_req ''/healthcheck/httpd''" "post_req (JObj payload_httpd)" payload_httpd "''httpd''"]
    m p unhealthy_env_down
  show ?thesis by blast
qed

text \<open>
  C9. With a clock that gives values of the datetime type, every document that
  \<open>POST /add\<close> passes to the store, for every request, and every payload that a cycle of
  the monitor writes to a file has both a \<open>timestamp\<close> and an \<open>@timestamp\<close> field, with
  the same string in both, of the shape of an ISO-8601 instant and ending with \<open>Z\<close>.
\<close>

theorem persisted_records_carry_both_timestamps:
  assumes "\<And>n. valid_datetime (clock e n)"
  shows "(\<forall>idx doc. Index idx doc \<in> set (store_calls (snd (add_status e req w))) \<and>
                     Index idx doc \<notin> set (store_calls w) \<longrightarrow> carries_both_timestamps doc) \<and>
         (\<forall>p doc. (p, doc) \<in> set (files (snd (monitor_all_services e self w))) \<and>
                   (p, doc) \<notin> set (files w) \<longrightarrow> carries_both_timestamps doc)"
proof -
  have submit: "carries_both_timestamps doc"
    if a: "Index idx doc \<in> set (store_calls (snd (add_status e req w)))"
      and b: "Index idx doc \<notin> set (store_calls w)" for idx doc
  proof -
    from add_status_calls[of e req w] a b
    have "\<exists>fs. doc = JObj (AList.update ''timestamp'' (JStr (isoformat (clock e (ticks w)) @ ''Z''))
              (AList.update ''@timestamp'' (JStr (isoformat (clock e (ticks w)) @ ''Z'')) fs))"
      by auto
    then show ?thesis using stamped_doc[OF assms] by auto
  qed
  have emit: "carries_both_timestamps doc"
    if a: "(p, doc) \<in> set (files (snd (monitor_all_services e self w)))"
      and b: "(p, doc) \<notin> set (files w)" for p doc
    using monitor_services_files[OF assms, of p doc self "map fst (service_status_config self)" w] a b
    by (simp add: monitor_all_files)
  from submit emit show ?thesis by blast
qed

theorem persisted_records_carry_both_timestamps_witness:
  "(\<forall>n. valid_datetime (clock env_up n)) \<and>
   Index ''rbcapp1-httpd'' stamped_httpd
     \<in> set (store_calls (snd (add_status env_up (post_req (JObj payload_stamped)) world0))) \<and>
   Index ''rbcapp1-httpd'' stamped_httpd \<notin> set (store_calls world0) \<and>
   carries_both_timestamps stamped_httpd \<and>
   (''/var/tmp/rbcapp1-status/httpd-UP-20250307T090501.json'', status_payload env_up ''httpd'' ''UP'' world0)
     \<in> set (files (snd (monitor_all_services env_up monitor0 world0))) \<and>
   (''/var/tmp/rbcapp1-status/httpd-UP-20250307T090501.json'', status_payload env_up ''httpd'' ''UP'' world0)
     \<notin> set (files world0) \<and>
   carries_both_timestamps (status_payload env_up ''httpd'' ''UP'' world0)"
proof -
  have v: "\<And>n. valid_datetime (clock env_up n)" by (rule clock_env_up_valid)
  have j: "is_json (post_req (JObj payload_stamped))"
    and d: "get_json (post_req (JObj payload_stamped)) = JObj payload_stamped"
    by (simp_all add: post_req_def)
  have a: "\<forall>f \<in> set required_fields. f \<in> fst ` set payload_stamped"
    by (simp add: required_fields_def payload_stamped_def payload_httpd_def)
  have n: "map_of payload_stamped ''service_name'' = Some (JStr ''httpd'')"
    by (simp add: payload_stamped_def payload_httpd_def)
  have m: "''httpd'' \<in> set SUPPORTED_SERVICES" by (simp add: SUPPORTED_SERVICES_def)
  have ts: "JStr ''2025-03-07T09:05:00.000123Z'' = JStr (isoformat (clock env_up (ticks world0)) @ ''Z'')"
    using iso_time0 by (simp add: world0_def)
  have doc: "stamped_httpd = JObj (AList.update ''timestamp'' (JStr ''2025-03-07T09:05:00.000123Z'')
        (AList.update ''@timestamp'' (JStr ''2025-03-07T09:05:00.000123Z'') payload_stamped))"
    by (simp add: stamped_httpd_def payload_stamped_def payload_httpd_def)
  have i: "index env_up (''rbcapp1-'' @ ''httpd'') stamped_httpd = Returns (JObj [(''_id'', JStr ''abc'')])"
    by (simp add: env_up_def)
  from add_status_accepted[OF j d a n m healthy_env_up ts doc i]
  have inn: "Index ''rbcapp1-httpd'' stamped_httpd
     \<in> set (store_calls (snd (add_status env_up (post_req (JObj payload_stamped)) world0)))"
    by auto
  have out: "Index ''rbcapp1-httpd'' stamped_httpd \<notin> set (store_calls world0)"
    by (simp add: world0_def)
  have cfg: "map fst (service_status_config monitor0) = [''httpd''] @ ''rabbitmq'' # [''postgresql'']"
    by (simp add: monitor0_def)
  have t0: "ticks world0 = 0" and f0: "files world0 = []" by (simp_all add: world0_def)
  obtain w1 w2 where ms: "monitor_services env_up monitor0 [''httpd''] world0 = (Inr (), w1)"
    and g: "generate_status_json env_up monitor0 ''rabbitmq'' (get_service_status monitor0 ''rabbitmq'') w1
             = (Inl (OSError ''Permission denied''), w2)"
    and fl: "files w2 = AList.update ''/var/tmp/rbcapp1-status/httpd-UP-20250307T090501.json''
                        (status_payload env_up ''httpd'' ''UP'' world0) (files world0)"
    using cycle_env_up[OF t0] by blast
  have "monitor_services env_up monitor0 ([''httpd''] @ ''rabbitmq'' # [''postgresql'']) world0
          = (Inl (OSError ''Permission denied''), w2)"
    using ms g by (rule monitor_services_stops)
  then have "monitor_all_services env_up monitor0 world0 = (Inl (OSError ''Permission denied''), w2)"
    using cfg by (simp add: monitor_all_services_def seq_def bnd_def Let_def)
  with fl f0 have fin: "(''/var/tmp/rbcapp1-status/httpd-UP-20250307T090501.json'',
        status_payload env_up ''httpd'' ''UP'' world0)
     \<in> set (files (snd (monitor_all_services env_up monitor0 world0)))"
    by simp
  have fout: "(''/var/tmp/rbcapp1-status/httpd-UP-20250307T090501.json'',
        status_payload env_up ''httpd'' ''UP'' world0) \<notin> set (files world0)"
    by (simp add: f0)
  from persisted_records_carry_both_timestamps[OF v, of "post_req (JObj payload_stamped)" world0 monitor0]
    inn out fin fout
  have "carries_both_timestamps stamped_httpd"
    and "carries_both_timestamps (status_payload env_up ''httpd'' ''UP'' world0)" by blast+
  with v inn out fin fout show ?thesis by blast
qed

end
